theory Spec2Isabelle
  imports Main "HOL-Library.Word"
begin

unbundle bit_operations_syntax

section \<open>libcylc: the Pyro message header (message.c, message.h, configuration.h, hmac.h)\<close>

text \<open>
  A shallow embedding of \<^verbatim>\<open>createMsgHeader\<close>, \<^verbatim>\<open>parseMessageHeader\<close> and
  \<^verbatim>\<open>getMessage\<close> of \<^verbatim>\<open>src/libcylc/message.c\<close>.

  \<^item> C types (LP64): \<^verbatim>\<open>unsigned char\<close> is \<open>8 word\<close>, \<^verbatim>\<open>unsigned short\<close> is \<open>16 word\<close>,
    \<^verbatim>\<open>int\<close> is \<open>32 word\<close> (addition wraps, \<open>sint\<close> reads the signed value), \<^verbatim>\<open>size_t\<close>
    arithmetic is done on \<open>64 word\<close>. A length returned by \<^verbatim>\<open>strlen\<close> or \<^verbatim>\<open>read\<close> is kept
    as a \<open>nat\<close> (no C object is longer than \<open>2 ^ 64\<close> bytes) and converted with \<open>of_nat\<close>
    where the code computes with it.
  \<^item> A pointer to bytes is \<open>None\<close> for \<^verbatim>\<open>NULL\<close> and otherwise \<open>Some mem\<close>, where \<open>mem\<close> lists
    the bytes of the pointed-to object from the pointer on.
  \<^item> \<^verbatim>\<open>exit(1)\<close> after a message on stderr is an error value, one constructor for each
    message; undefined behaviour (a read or write through \<^verbatim>\<open>NULL\<close>, \<^verbatim>\<open>strlen\<close> running off
    the end of its object) is the error \<open>Undefined\<close>.
  \<^item> \<^verbatim>\<open>hmac_sha1\<close> is declared in hmac.h; its implementation is not part of the sources,
    so it is a parameter \<open>hmac_sha1 key body\<close> of every function that calls it.
  \<^item> The global \<^verbatim>\<open>config\<close> is passed explicitly.
\<close>

type_synonym byte = "8 word"
type_synonym ushort = "16 word"
type_synonym cint = "32 word"
type_synonym size_t = "64 word"
type_synonym cptr = "byte list option"
type_synonym hmac_fn = "byte list \<Rightarrow> byte list \<Rightarrow> byte list"

subsection \<open>message.h, hmac.h, configuration.h\<close>

text \<open>A field \<^verbatim>\<open>msg.data\<close> of the C struct \<^verbatim>\<open>Message\<close> is \<open>msg_data\<close>, a field
  \<^verbatim>\<open>header.flags\<close> of \<^verbatim>\<open>MessageHeader\<close> is \<open>header_flags\<close>.\<close>

record Message =
  msg_type :: cint
  msg_flags :: cint
  msg_sequence :: cint
  msg_data :: "byte list"

record MessageHeader =
  header_type :: cint
  header_flags :: cint
  header_sequence :: cint
  header_datasize :: cint
  header_hmac :: "byte list"

record Configuration =
  hmac_key :: cptr
  keyLen :: nat

definition MSG_CONNECT :: ushort where "MSG_CONNECT = 1"
definition MSG_CONNECTOK :: ushort where "MSG_CONNECTOK = 2"
definition MSG_CONNECTFAIL :: ushort where "MSG_CONNECTFAIL = 3"
definition MSG_INVOKE :: ushort where "MSG_INVOKE = 4"
definition MSG_RESULT :: ushort where "MSG_RESULT = 5"

definition FLAGS_EXCEPTION :: ushort where "FLAGS_EXCEPTION = push_bit 0 1"
definition FLAGS_COMPRESSED :: ushort where "FLAGS_COMPRESSED = push_bit 1 1"
definition FLAGS_ONEWAY :: ushort where "FLAGS_ONEWAY = push_bit 2 1"
definition FLAGS_HMAC :: ushort where "FLAGS_HMAC = push_bit 3 1"
definition FLAGS_BATCH :: ushort where "FLAGS_BATCH = push_bit 4 1"

definition PYRO_MAGIC :: ushort where "PYRO_MAGIC = 0x34e9"
definition PROTOCOL_VERSION :: ushort where "PROTOCOL_VERSION = 44"
definition HEADER_SIZE :: ushort where "HEADER_SIZE = 38"
definition hmac_size :: cint where "hmac_size = 20"

text \<open>
  The ways a call ends without returning. Each \<^verbatim>\<open>exit(1)\<close> is named after the error kind
  of the specification that its stderr message reports:
  \<^item> \<open>Truncated\<close>: "msg header data size mismatch" (parseMessageHeader);
  \<^item> \<open>BadMagicOrVersion\<close>: "invalid msg or unsupported protocol version";
  \<^item> \<open>ChecksumMismatch\<close>: "msg header checksum mismatch";
  \<^item> \<open>UnexpectedType\<close>: "invalid msg type received: %d" (getMessage);
  \<^item> \<open>AuthenticationFailed\<close>: "message hmac mismatch";
  \<^item> \<open>AuthenticationModeMismatch\<close>: "hmac key config not symmetric";
  \<^item> \<open>SequenceOutOfRange\<close>: "sequenceNr must be 0-65535 (unsigned short)" (createMsgHeader);
  \<^item> \<open>Undefined\<close>: undefined behaviour of C.
\<close>

datatype error =
    Truncated
  | BadMagicOrVersion
  | ChecksumMismatch
  | UnexpectedType
  | AuthenticationFailed
  | AuthenticationModeMismatch
  | SequenceOutOfRange
  | Undefined

subsection \<open>The C library calls the code makes\<close>

text \<open>\<^verbatim>\<open>strlen\<close>: the number of bytes before the first NUL of the object; running off the
  end of the object is undefined (\<open>None\<close>).\<close>

fun strlen :: "byte list \<Rightarrow> nat option" where
  "strlen [] = None"
| "strlen (b # bs) = (if b = 0 then Some 0 else map_option Suc (strlen bs))"

text \<open>\<^verbatim>\<open>strlen(p)\<close> on a pointer: \<^verbatim>\<open>strlen(NULL)\<close> is undefined.\<close>

definition c_strlen :: "cptr \<Rightarrow> error + nat" where
  "c_strlen p =
     (case p of
        None \<Rightarrow> Inl Undefined
      | Some mem \<Rightarrow> (case strlen mem of None \<Rightarrow> Inl Undefined | Some n \<Rightarrow> Inr n))"

text \<open>\<^verbatim>\<open>memcmp(s1, s2, n)\<close>: zero when the first \<open>n\<close> bytes agree, otherwise the difference
  of the first two bytes that differ. Both arguments of the one call in the code are
  20-byte arrays; a buffer that ends before \<open>n\<close> bytes compares as the smaller one.\<close>

fun memcmp :: "byte list \<Rightarrow> byte list \<Rightarrow> nat \<Rightarrow> int" where
  "memcmp s1 s2 0 = 0"
| "memcmp [] [] (Suc n) = 0"
| "memcmp [] (b # bs) (Suc n) = -1"
| "memcmp (a # as) [] (Suc n) = 1"
| "memcmp (a # as) (b # bs) (Suc n) = (if a = b then memcmp as bs n else uint a - uint b)"

text \<open>\<^verbatim>\<open>read(sockfd, buf, n)\<close>: the socket is the stream of bytes still to be delivered; a
  read takes up to \<open>n\<close> of them (fewer only at the end of the stream) and returns them with
  the rest of the stream. They are stored at the start of \<open>buf\<close>; the bytes of \<open>buf\<close>
  behind them keep their earlier contents (\<open>store\<close>). A read that fails (result -1) is not
  part of the model.\<close>

definition read :: "byte list \<Rightarrow> nat \<Rightarrow> byte list \<times> byte list" where
  "read sockfd n = (take n sockfd, drop n sockfd)"

definition store :: "byte list \<Rightarrow> byte list \<Rightarrow> byte list" where
  "store buf received = received @ drop (length received) buf"

subsection \<open>createMsgHeader\<close>

text \<open>Line 37-38: \<^verbatim>\<open>if (data == NULL) *data = '\0';\<close> stores through the null pointer when
  its condition holds; otherwise \<open>data\<close> is the object the following lines read.\<close>

definition null_guard :: "cptr \<Rightarrow> error + byte list" where
  "null_guard data = (case data of None \<Rightarrow> Inl Undefined | Some mem \<Rightarrow> Inr mem)"

text \<open>Lines 40-79, with \<open>dataLen\<close> the result of line 35. The 38 bytes written to
  \<^verbatim>\<open>header\<close> are the result. \<^verbatim>\<open>headerchecksum\<close> is an \<^verbatim>\<open>int\<close>; the sum is computed in
  \<^verbatim>\<open>size_t\<close> (the \<^verbatim>\<open>int\<close> operands are sign-extended) and converted back.\<close>

definition createMsgHeader_fill ::
  "Configuration \<Rightarrow> hmac_fn \<Rightarrow> cint \<Rightarrow> byte list \<Rightarrow> nat \<Rightarrow> cint \<Rightarrow> cint \<Rightarrow> error + byte list" where
  "createMsgHeader_fill config hmac_sha1 msgtype data dataLen flags0 sequenceNr =
     (let (flags, bodyhmac) =
            (case hmac_key config of
               Some key \<Rightarrow> (flags0 OR ucast FLAGS_HMAC,
                             hmac_sha1 (take (keyLen config) key) (take dataLen data))
             | None \<Rightarrow> (flags0, replicate (unat hmac_size) 0))
      in if 0xffff <s sequenceNr then Inl SequenceOutOfRange
         else
           let len = (of_nat dataLen :: size_t);
               headerchecksum =
                 (ucast (scast (msgtype + ucast PROTOCOL_VERSION) + len + scast flags
                          + scast sequenceNr + ucast PYRO_MAGIC :: size_t) :: cint)
           in Inr ([0x50, 0x59, 0x52, 0x4F,
                    ucast (signed_drop_bit 8 (ucast PROTOCOL_VERSION :: cint)),
                    ucast ((ucast PROTOCOL_VERSION :: cint) AND 0xff),
                    ucast (signed_drop_bit 8 msgtype),
                    ucast (msgtype AND 0xff),
                    ucast (signed_drop_bit 8 flags),
                    ucast (flags AND 0xff),
                    ucast (signed_drop_bit 8 sequenceNr),
                    ucast (sequenceNr AND 0xff),
                    ucast (drop_bit 24 len AND 0xff),
                    ucast (drop_bit 16 len AND 0xff),
                    ucast (drop_bit 8 len AND 0xff),
                    ucast (len AND 0xff),
                    ucast (signed_drop_bit 8 headerchecksum),
                    ucast (headerchecksum AND 0xff)]
                   @ take (unat hmac_size) bodyhmac))"

text \<open>The whole function: \<^verbatim>\<open>strlen(data)\<close> (line 35), the null guard (lines 37-38), then
  lines 40-79.\<close>

definition createMsgHeader ::
  "Configuration \<Rightarrow> hmac_fn \<Rightarrow> cint \<Rightarrow> cptr \<Rightarrow> cint \<Rightarrow> cint \<Rightarrow> error + byte list" where
  "createMsgHeader config hmac_sha1 msgtype data flags sequenceNr =
     (case c_strlen data of
        Inl e \<Rightarrow> Inl e
      | Inr dataLen \<Rightarrow>
          (case null_guard data of
             Inl e \<Rightarrow> Inl e
           | Inr mem \<Rightarrow>
               createMsgHeader_fill config hmac_sha1 msgtype mem dataLen flags sequenceNr))"

subsection \<open>parseMessageHeader\<close>

text \<open>Lines 134-172: the magic and version check, the fields, the checksum comparison
  and the copy of the digest. It reads \<open>headerdata\<close> at offsets 0 to 37; the guard in front
  of it lets only buffers of at least 39 bytes through. \<^verbatim>\<open>int\<close> arithmetic is two's
  complement on 32 bits.\<close>

definition parseMessageHeader_fields :: "byte list \<Rightarrow> error + MessageHeader" where
  "parseMessageHeader_fields headerdata =
     (let version = (push_bit 8 (ucast (headerdata ! 4)) OR ucast (headerdata ! 5) :: cint)
      in if headerdata ! 0 \<noteq> 0x50 \<or> headerdata ! 1 \<noteq> 0x59 \<or>
            headerdata ! 2 \<noteq> 0x52 \<or> headerdata ! 3 \<noteq> 0x4F \<or>
            version \<noteq> ucast PROTOCOL_VERSION
         then Inl BadMagicOrVersion
         else
           let htype = (push_bit 8 (ucast (headerdata ! 6) AND 0xff)
                          OR (ucast (headerdata ! 7) AND 0xff) :: cint);
               hflags = (push_bit 8 (ucast (headerdata ! 8) AND 0xff)
                          OR (ucast (headerdata ! 9) AND 0xff) :: cint);
               hsequence = (push_bit 8 (ucast (headerdata ! 10) AND 0xff)
                          OR (ucast (headerdata ! 11) AND 0xff) :: cint);
               hdatasize =
                 (push_bit 8
                    (push_bit 8
                       (push_bit 8 (ucast (headerdata ! 12) AND 0xff)
                          OR (ucast (headerdata ! 13) AND 0xff))
                       OR (ucast (headerdata ! 14) AND 0xff))
                    OR (ucast (headerdata ! 15) AND 0xff) :: cint);
               currentchecksum =
                 (htype + version + hdatasize + hflags + hsequence + ucast PYRO_MAGIC)
                   AND 0xffff;
               headerchecksum = (push_bit 8 (ucast (headerdata ! 16) AND 0xff)
                          OR (ucast (headerdata ! 17) AND 0xff) :: cint)
           in if currentchecksum \<noteq> headerchecksum then Inl ChecksumMismatch
              else Inr \<lparr>header_type = htype, header_flags = hflags,
                        header_sequence = hsequence, header_datasize = hdatasize,
                        header_hmac = take (unat hmac_size) (drop 18 headerdata)\<rparr>)"

text \<open>The whole function: the guard of lines 128-132,
  \<^verbatim>\<open>headerdata == NULL || strlen((char *) headerdata) != HEADER_SIZE\<close>, then lines 134-172.\<close>

definition parseMessageHeader :: "cptr \<Rightarrow> error + MessageHeader" where
  "parseMessageHeader headerdata =
     (case headerdata of
        None \<Rightarrow> Inl Truncated
      | Some mem \<Rightarrow>
          (case strlen mem of
             None \<Rightarrow> Inl Undefined
           | Some n \<Rightarrow>
               if n \<noteq> unat HEADER_SIZE then Inl Truncated
               else parseMessageHeader_fields mem))"

subsection \<open>getMessage\<close>

text \<open>Line 118, \<^verbatim>\<open>memcpy(msg.data, data, hmac_size)\<close>. The local \<^verbatim>\<open>msg\<close> of line 88 is not
  initialised and nothing in the sources assigns \<^verbatim>\<open>msg.data\<close> (a \<^verbatim>\<open>char *\<close> in message.h), so
  the bytes are stored through an indeterminate pointer: undefined behaviour, whatever the
  bytes are.\<close>

definition memcpy_msg_data :: "byte list \<Rightarrow> error + byte list" where
  "memcpy_msg_data bytes = Inl Undefined"

text \<open>Lines 94-120, for the header that line 92 decoded: the type check, the read of the
  body into \<^verbatim>\<open>data[256]\<close> (whose earlier contents are \<open>data0\<close>), the digest and symmetry
  checks, and lines 115-120, which fill the fields of \<^verbatim>\<open>msg\<close>, copy through \<^verbatim>\<open>msg.data\<close> and
  return \<^verbatim>\<open>msg\<close> (with it, the rest of the stream).\<close>

definition getMessage_body ::
  "Configuration \<Rightarrow> hmac_fn \<Rightarrow> MessageHeader \<Rightarrow> cint \<Rightarrow> byte list \<Rightarrow> byte list
     \<Rightarrow> error + (Message \<times> byte list)" where
  "getMessage_body config hmac_sha1 header requiredMsgType sockfd data0 =
     (if requiredMsgType \<noteq> 0 \<and> header_type header \<noteq> requiredMsgType then Inl UnexpectedType
      else
        let (received, sockfd') = read sockfd 256;
            data = store data0 received;
            dataLen = length received;
            msg = (case memcpy_msg_data (take (unat hmac_size) data) of
                     Inl e \<Rightarrow> Inl e
                   | Inr copied \<Rightarrow>
                       Inr (\<lparr>msg_type = header_type header, msg_flags = header_flags header,
                              msg_sequence = header_sequence header, msg_data = copied\<rparr>,
                            sockfd'))
        in if (header_flags header AND ucast FLAGS_HMAC) \<noteq> 0 \<and> hmac_key config \<noteq> None
           then
             let bodyhmac = hmac_sha1 (take (keyLen config) (the (hmac_key config)))
                                      (take dataLen data)
             in if memcmp (header_hmac header) bodyhmac (unat hmac_size) = 0
                then Inl AuthenticationFailed
                else msg
           else if ((header_flags header AND ucast FLAGS_HMAC) \<noteq> 0) \<noteq> (hmac_key config \<noteq> None)
                then Inl AuthenticationModeMismatch
                else msg)"

text \<open>The whole function: the read of the header into \<^verbatim>\<open>headerdata[HEADER_SIZE]\<close> (line 91;
  \<open>stack\<close> is what the memory from \<^verbatim>\<open>headerdata\<close> on held before), its decoding (line 92),
  then lines 94-120.\<close>

definition getMessage ::
  "Configuration \<Rightarrow> hmac_fn \<Rightarrow> byte list \<Rightarrow> byte list \<Rightarrow> byte list \<Rightarrow> cint
     \<Rightarrow> error + (Message \<times> byte list)" where
  "getMessage config hmac_sha1 stack data0 sockfd requiredMsgType =
     (let (received, sockfd') = read sockfd (unat HEADER_SIZE);
          headerdata = store stack received
      in case parseMessageHeader (Some headerdata) of
           Inl e \<Rightarrow> Inl e
         | Inr header \<Rightarrow>
             getMessage_body config hmac_sha1 header requiredMsgType sockfd' data0)"

subsection \<open>configuration.c\<close>

text \<open>\<^verbatim>\<open>setConfig(key)\<close> copies the string with its terminator and records its length.\<close>

definition setConfig :: "cptr \<Rightarrow> error + Configuration" where
  "setConfig key =
     (case c_strlen key of
        Inl e \<Rightarrow> Inl e
      | Inr n \<Rightarrow> Inr \<lparr>hmac_key = Some (take (n + 1) (the key)), keyLen = n\<rparr>)"

subsection \<open>Corrupting a header\<close>

text \<open>Flipping bit \<open>k\<close> of the byte at offset \<open>i\<close> of a buffer (a buffer that ends before
  offset \<open>i\<close> is left as it is).\<close>

definition flip_header_bit :: "byte list \<Rightarrow> nat \<Rightarrow> nat \<Rightarrow> byte list" where
  "flip_header_bit buf i k = buf[i := (buf ! i) XOR push_bit k 1]"

subsection \<open>Reading the wire format\<close>

text \<open>The unsigned big-endian value of the two bytes, and of the four bytes, at offset \<open>i\<close>
  of a buffer: the \<^verbatim>\<open>H\<close> and \<^verbatim>\<open>i\<close> items of the layout \<^verbatim>\<open>'!4sHHHHiH20s'\<close> that message.c
  documents.\<close>

definition be16 :: "byte list \<Rightarrow> nat \<Rightarrow> int" where
  "be16 buf i = 256 * uint (buf ! i) + uint (buf ! (i + 1))"

definition be32 :: "byte list \<Rightarrow> nat \<Rightarrow> int" where
  "be32 buf i = 65536 * be16 buf i + be16 buf (i + 2)"

text \<open>The checksum in the specification's words:
  (type + version + bodyLen + flags + sequence + MAGIC_CONSTANT) mod 65536, over the integers.\<close>

definition spec_checksum :: "int \<Rightarrow> int \<Rightarrow> int \<Rightarrow> int \<Rightarrow> int \<Rightarrow> int" where
  "spec_checksum t v n f s = (t + v + n + f + s + uint PYRO_MAGIC) mod 65536"

section \<open>Words and bytes\<close>

lemma mask_ff: "(0xff :: 'a::len word) = mask 8"
  by (simp add: mask_eq_exp_minus_1)

lemma mask_ffff: "(0xffff :: 'a::len word) = mask 16"
  by (simp add: mask_eq_exp_minus_1)

lemma dec16: "push_bit 8 (ucast (a::byte) AND 0xff) OR (ucast (b::byte) AND 0xff) = (ucast (word_cat a b :: ushort) :: cint)"
  unfolding mask_ff by (rule bit_word_eqI) (auto simp add: bit_simps)

lemma dec16_version: "push_bit 8 (ucast (a::byte)) OR ucast (b::byte) = (ucast (word_cat a b :: ushort) :: cint)"
  by (rule bit_word_eqI) (auto simp add: bit_simps dest: bit_imp_le_length)

lemma dec32: "push_bit 8 (push_bit 8 (push_bit 8 (ucast (a::byte) AND 0xff) OR (ucast (b::byte) AND 0xff))
                 OR (ucast (c::byte) AND 0xff)) OR (ucast (d::byte) AND 0xff)
              = (word_cat (word_cat a b :: ushort) (word_cat c d :: ushort) :: cint)"
  unfolding mask_ff by (rule bit_word_eqI) (auto simp add: bit_simps)

lemma low16_cat: "(ucast (word_cat (x::ushort) (y::ushort) :: cint) :: ushort) = y"
  by (rule bit_word_eqI) (auto simp add: bit_simps)

lemma low16_and: "(x::cint) AND 0xffff = ucast (ucast x :: ushort)"
  unfolding mask_ffff by (rule bit_word_eqI) (auto simp add: bit_simps)

lemma ucast_ushort_cint_id: "(ucast (ucast (x::ushort) :: cint) :: ushort) = x"
  by (rule bit_word_eqI) (auto simp add: bit_simps)

lemma ucast_ushort_cint_eq: "((ucast (x::ushort) :: cint) = ucast y) = (x = y)"
  by (metis ucast_ushort_cint_id)

lemma low16_add: "(ucast (x + y :: cint) :: ushort) = ucast x + ucast y"
  by (simp add: word_unat_eq_iff unsigned_ucast_eq unat_word_ariths take_bit_eq_mod mod_simps mod_mod_cancel)

lemma low16_add64: "(ucast (x + y :: size_t) :: ushort) = ucast x + ucast y"
  by (simp add: word_unat_eq_iff unsigned_ucast_eq unat_word_ariths take_bit_eq_mod mod_simps mod_mod_cancel)

lemma low16_cint_size_t: "(ucast (ucast (x :: size_t) :: cint) :: ushort) = ucast x"
  by (rule bit_word_eqI) (auto simp add: bit_simps)

lemma low16_scast: "(ucast (scast (x :: cint) :: size_t) :: ushort) = ucast x"
  by (rule bit_word_eqI) (auto simp add: bit_simps)

lemma low16_of_nat: "(ucast (of_nat n :: size_t) :: ushort) = of_nat n"
  by (simp add: word_unat_eq_iff unsigned_ucast_eq unsigned_of_nat take_bit_eq_mod mod_mod_cancel)

lemma enc16: "word_cat (ucast (signed_drop_bit 8 (x::cint)) :: byte) (ucast (x AND 0xff) :: byte) = (ucast x :: ushort)"
  unfolding mask_ff by (rule bit_word_eqI) (auto simp add: bit_simps)

lemma enc16_len: "word_cat (ucast (drop_bit 8 (x::size_t) AND 0xff) :: byte) (ucast (x AND 0xff) :: byte) = (ucast x :: ushort)"
  unfolding mask_ff by (rule bit_word_eqI) (auto simp add: bit_simps)

lemma enc16_len_hi: "word_cat (ucast (drop_bit 24 (x::size_t) AND 0xff) :: byte) (ucast (drop_bit 16 x AND 0xff) :: byte) = (ucast (drop_bit 16 x) :: ushort)"
  unfolding mask_ff by (rule bit_word_eqI) (auto simp add: bit_simps)

lemma cat32: "(word_cat (ucast (drop_bit 16 (x::size_t)) :: ushort) (ucast x :: ushort) :: cint) = ucast x"
  by (rule bit_word_eqI) (auto simp add: bit_simps)

lemma word_cat_bytes_eq: "((word_cat (a::byte) (b::byte) :: ushort) = word_cat a' b') = (a = a' \<and> b = b')"
proof
  assume h: "(word_cat a b :: ushort) = word_cat a' b'"
  have "b = b'"
  proof (rule bit_word_eqI)
    fix n assume "n < LENGTH(8)"
    then show "bit b n = bit b' n"
      using arg_cong[OF h, of "\<lambda>w. bit w n"] by (simp add: bit_simps)
  qed
  moreover have "a = a'"
  proof (rule bit_word_eqI)
    fix n assume "n < LENGTH(8)"
    then show "bit a n = bit a' n"
      using arg_cong[OF h, of "\<lambda>w. bit w (n + 8)"] by (simp add: bit_simps)
  qed
  ultimately show "a = a' \<and> b = b'" by simp
qed simp

lemma xor_bit_neq: "k < 8 \<Longrightarrow> (a::byte) XOR push_bit k 1 \<noteq> a"
proof
  assume k: "k < 8" and h: "a XOR push_bit k 1 = a"
  show False using arg_cong[OF h, of "\<lambda>w. bit w k"] k by (simp add: bit_simps)
qed


lemmas hdr_consts = PYRO_MAGIC_def PROTOCOL_VERSION_def HEADER_SIZE_def hmac_size_def FLAGS_HMAC_def

lemma fields_char:
  "parseMessageHeader_fields buf =
     (if buf ! 0 \<noteq> 0x50 \<or> buf ! 1 \<noteq> 0x59 \<or> buf ! 2 \<noteq> 0x52 \<or> buf ! 3 \<noteq> 0x4F \<or>
         (word_cat (buf ! 4) (buf ! 5) :: ushort) \<noteq> 44
      then Inl BadMagicOrVersion
      else if (word_cat (buf ! 6) (buf ! 7) :: ushort) + 44 + word_cat (buf ! 14) (buf ! 15)
                + word_cat (buf ! 8) (buf ! 9) + word_cat (buf ! 10) (buf ! 11) + 0x34e9
              \<noteq> word_cat (buf ! 16) (buf ! 17)
      then Inl ChecksumMismatch
      else Inr \<lparr>header_type = ucast (word_cat (buf ! 6) (buf ! 7) :: ushort),
                header_flags = ucast (word_cat (buf ! 8) (buf ! 9) :: ushort),
                header_sequence = ucast (word_cat (buf ! 10) (buf ! 11) :: ushort),
                header_datasize = word_cat (word_cat (buf ! 12) (buf ! 13) :: ushort)
                                           (word_cat (buf ! 14) (buf ! 15) :: ushort),
                header_hmac = take 20 (drop 18 buf)\<rparr>)"
proof -
  have v: "((ucast (w :: ushort) :: cint) = 44) = (w = 44)" for w
    using ucast_ushort_cint_eq [of w 44] by simp
  have c: "((x :: cint) AND 0xffff = ucast (k :: ushort)) = ((ucast x :: ushort) = k)" for x k
    by (simp add: low16_and ucast_ushort_cint_eq)
  show ?thesis
    unfolding parseMessageHeader_fields_def Let_def
    unfolding dec32
    unfolding dec16 dec16_version
    by (simp add: hdr_consts v c low16_add ucast_ushort_cint_id low16_cat)
qed


lemma low16_sum:
  "(ucast (ucast (scast (msgtype + 44 :: cint) + len + scast (fl :: cint) + scast (sq :: cint) + 0x34e9 :: size_t) :: cint) :: ushort)
     = ucast msgtype + 44 + ucast len + ucast fl + ucast sq + 0x34e9"
  by (simp add: low16_cint_size_t low16_add64 low16_scast low16_add)

lemma fill_bytes:
  assumes "createMsgHeader_fill config hmac_sha1 msgtype dat dataLen flags0 sequenceNr = Inr hdr"
  defines "fl \<equiv> (case hmac_key config of Some key \<Rightarrow> flags0 OR 8 | None \<Rightarrow> flags0)"
  defines "dg \<equiv> (case hmac_key config of
                       Some key \<Rightarrow> hmac_sha1 (take (keyLen config) key) (take dataLen dat)
                     | None \<Rightarrow> replicate 20 0)"
  shows "hdr ! 0 = 0x50 \<and> hdr ! 1 = 0x59 \<and> hdr ! 2 = 0x52 \<and> hdr ! 3 = 0x4F"
    and "(word_cat (hdr ! 4) (hdr ! 5) :: ushort) = 44"
    and "(word_cat (hdr ! 6) (hdr ! 7) :: ushort) = ucast msgtype"
    and "(word_cat (hdr ! 8) (hdr ! 9) :: ushort) = ucast fl"
    and "(word_cat (hdr ! 10) (hdr ! 11) :: ushort) = ucast sequenceNr"
    and "(word_cat (hdr ! 12) (hdr ! 13) :: ushort) = ucast (drop_bit 16 (of_nat dataLen :: size_t))"
    and "(word_cat (hdr ! 14) (hdr ! 15) :: ushort) = of_nat dataLen"
    and "(word_cat (hdr ! 16) (hdr ! 17) :: ushort)
           = ucast msgtype + 44 + of_nat dataLen + ucast fl + ucast sequenceNr + 0x34e9"
    and "drop 18 hdr = take 20 dg"
    and "length hdr = 18 + min 20 (length dg)"
    and "\<not> 0xffff <s sequenceNr"
proof -
  let ?len = "of_nat dataLen :: size_t"
  let ?ck = "ucast (scast (msgtype + 44 :: cint) + ?len + scast fl + scast sequenceNr + 0x34e9 :: size_t) :: cint"
  have seq: "\<not> 0xffff <s sequenceNr"
    using assms(1) by (auto simp: createMsgHeader_fill_def Let_def split: option.splits if_splits)
  have hdr: "hdr = [0x50, 0x59, 0x52, 0x4F,
                    ucast (signed_drop_bit 8 (44 :: cint)), ucast ((44 :: cint) AND 0xff),
                    ucast (signed_drop_bit 8 msgtype), ucast (msgtype AND 0xff),
                    ucast (signed_drop_bit 8 fl), ucast (fl AND 0xff),
                    ucast (signed_drop_bit 8 sequenceNr), ucast (sequenceNr AND 0xff),
                    ucast (drop_bit 24 ?len AND 0xff), ucast (drop_bit 16 ?len AND 0xff),
                    ucast (drop_bit 8 ?len AND 0xff), ucast (?len AND 0xff),
                    ucast (signed_drop_bit 8 ?ck), ucast (?ck AND 0xff)] @ take 20 dg"
    using assms(1) seq
    by (auto simp: createMsgHeader_fill_def Let_def fl_def dg_def hdr_consts split: option.splits)
  show "\<not> 0xffff <s sequenceNr" by (rule seq)
  show "hdr ! 0 = 0x50 \<and> hdr ! 1 = 0x59 \<and> hdr ! 2 = 0x52 \<and> hdr ! 3 = 0x4F"
    by (simp add: hdr)
  have n: "hdr ! 4 = ucast (signed_drop_bit 8 (44 :: cint))" "hdr ! 5 = ucast ((44 :: cint) AND 0xff)"
    "hdr ! 6 = ucast (signed_drop_bit 8 msgtype)" "hdr ! 7 = ucast (msgtype AND 0xff)"
    "hdr ! 8 = ucast (signed_drop_bit 8 fl)" "hdr ! 9 = ucast (fl AND 0xff)"
    "hdr ! 10 = ucast (signed_drop_bit 8 sequenceNr)" "hdr ! 11 = ucast (sequenceNr AND 0xff)"
    "hdr ! 12 = ucast (drop_bit 24 ?len AND 0xff)" "hdr ! 13 = ucast (drop_bit 16 ?len AND 0xff)"
    "hdr ! 14 = ucast (drop_bit 8 ?len AND 0xff)" "hdr ! 15 = ucast (?len AND 0xff)"
    "hdr ! 16 = ucast (signed_drop_bit 8 ?ck)" "hdr ! 17 = ucast (?ck AND 0xff)"
    by (simp_all add: hdr)
  show "(word_cat (hdr ! 4) (hdr ! 5) :: ushort) = 44"
    by (simp only: n enc16) simp
  show "(word_cat (hdr ! 6) (hdr ! 7) :: ushort) = ucast msgtype"
    by (simp only: n enc16)
  show "(word_cat (hdr ! 8) (hdr ! 9) :: ushort) = ucast fl"
    by (simp only: n enc16)
  show "(word_cat (hdr ! 10) (hdr ! 11) :: ushort) = ucast sequenceNr"
    by (simp only: n enc16)
  show "(word_cat (hdr ! 12) (hdr ! 13) :: ushort) = ucast (drop_bit 16 ?len)"
    by (simp only: n enc16_len_hi)
  show "(word_cat (hdr ! 14) (hdr ! 15) :: ushort) = of_nat dataLen"
    by (simp only: n enc16_len low16_of_nat)
  show "(word_cat (hdr ! 16) (hdr ! 17) :: ushort)
           = ucast msgtype + 44 + of_nat dataLen + ucast fl + ucast sequenceNr + 0x34e9"
    by (simp only: n enc16 low16_sum low16_of_nat)
  show "drop 18 hdr = take 20 dg" by (simp add: hdr)
  show "length hdr = 18 + min 20 (length dg)" by (simp add: hdr)
qed

section \<open>C strings and the size guard of parseMessageHeader\<close>

lemma strlen_Some_iff:
  "strlen mem = Some n \<longleftrightarrow> n < length mem \<and> mem ! n = 0 \<and> (\<forall>i<n. mem ! i \<noteq> 0)"
proof (induction mem arbitrary: n)
  case Nil
  then show ?case by simp
next
  case (Cons b bs)
  show ?case
  proof (cases "b = 0")
    case True
    then show ?thesis by (cases n) auto
  next
    case False
    show ?thesis
    proof (cases n)
      case 0
      with False show ?thesis by auto
    next
      case (Suc m)
      have "(\<forall>i<Suc m. (b # bs) ! i \<noteq> 0) \<longleftrightarrow> (\<forall>i<m. bs ! i \<noteq> 0)"
        using False by (auto simp: less_Suc_eq_0_disj)
      with False Suc Cons.IH [of m] show ?thesis by auto
    qed
  qed
qed

lemma strlen_takeWhile:
  "strlen mem = Some n \<Longrightarrow> take n mem = takeWhile (\<lambda>b. b \<noteq> 0) mem \<and> n = length (takeWhile (\<lambda>b. b \<noteq> 0) mem)"
  by (induction mem arbitrary: n) (auto split: if_splits)

text \<open>client.c configures the secret with \<^verbatim>\<open>setConfig("cylc")\<close>.\<close>

lemma setConfig_cylc:
  "setConfig (Some [0x63, 0x79, 0x6c, 0x63, 0])
     = Inr \<lparr>hmac_key = Some [0x63, 0x79, 0x6c, 0x63, 0], keyLen = 4\<rparr>"
  by (simp add: setConfig_def c_strlen_def)

text \<open>The guard of parseMessageHeader lets a buffer through only when its first NUL byte is at
  offset 38. Such a buffer has a nonzero byte at offset 4, the high byte of the protocol
  version, so the version check that follows rejects it: every call of parseMessageHeader
  ends in the size-mismatch error, in the version error or in undefined behaviour, and none
  returns a header.\<close>

lemma parseMessageHeader_errors:
  "parseMessageHeader headerdata = Inl Truncated \<or>
   parseMessageHeader headerdata = Inl Undefined \<or>
   parseMessageHeader headerdata = Inl BadMagicOrVersion"
proof (cases headerdata)
  case None
  then show ?thesis by (simp add: parseMessageHeader_def)
next
  case (Some mem)
  show ?thesis
  proof (cases "strlen mem")
    case None
    with Some show ?thesis by (simp add: parseMessageHeader_def)
  next
    case (Some n)
    note sl = this
    show ?thesis
    proof (cases "n = 38")
      case False
      with sl \<open>headerdata = Some mem\<close> show ?thesis
        by (simp add: parseMessageHeader_def hdr_consts)
    next
      case True
      with sl have "mem ! 4 \<noteq> 0" by (simp add: strlen_Some_iff)
      then have "(word_cat (mem ! 4) (mem ! 5) :: ushort) \<noteq> 44"
        using word_cat_bytes_eq [of "mem ! 4" "mem ! 5" 0 44] by simp
      then have "parseMessageHeader_fields mem = Inl BadMagicOrVersion"
        by (simp add: fields_char)
      with sl True \<open>headerdata = Some mem\<close> show ?thesis
        by (simp add: parseMessageHeader_def hdr_consts)
    qed
  qed
qed

lemma parseMessageHeader_never_returns: "parseMessageHeader headerdata \<noteq> Inr header"
  using parseMessageHeader_errors [of headerdata] by auto

section \<open>getMessage\<close>

text \<open>Lines 94-120 of getMessage in closed form: the HMAC flag is bit 3 of the flags, the
  digest is taken over the bytes just read, \<^verbatim>\<open>memcmp\<close> is zero exactly when the two 20-byte
  digests agree, and every path on which the checks pass runs into the store through
  \<^verbatim>\<open>msg.data\<close>.\<close>

lemma memcmp_eq_0_iff: "memcmp s1 s2 n = 0 \<longleftrightarrow> take n s1 = take n s2"
proof (induction s1 s2 n rule: memcmp.induct)
  case (5 a as b bs n)
  have "uint a - uint b = 0 \<longleftrightarrow> a = b" by (simp add: word_uint_eq_iff)
  with 5 show ?case by simp
qed simp_all

lemma hmac_flag_test: "((x :: cint) AND ucast FLAGS_HMAC \<noteq> 0) = bit x 3"
proof -
  have "ucast FLAGS_HMAC = (push_bit 3 1 :: cint)" by (simp add: FLAGS_HMAC_def)
  then show ?thesis by (simp only: bit_iff_and_push_bit_not_eq_0)
qed

lemma take_store: "take (length received) (store buf received) = received"
  by (simp add: store_def)

lemma getMessage_body_char:
  "getMessage_body config hmac_sha1 header requiredMsgType sockfd data0 =
     (if requiredMsgType \<noteq> 0 \<and> header_type header \<noteq> requiredMsgType then Inl UnexpectedType
      else if bit (header_flags header) 3 \<and> hmac_key config \<noteq> None
      then if take 20 (header_hmac header)
                = take 20 (hmac_sha1 (take (keyLen config) (the (hmac_key config))) (take 256 sockfd))
           then Inl AuthenticationFailed
           else Inl Undefined
      else if bit (header_flags header) 3 \<noteq> (hmac_key config \<noteq> None)
      then Inl AuthenticationModeMismatch
      else Inl Undefined)"
proof -
  have t: "take (length (take 256 sockfd)) (store data0 (take 256 sockfd)) = take 256 sockfd"
    by (rule take_store)
  show ?thesis
    unfolding getMessage_body_def read_def Let_def prod.case hmac_flag_test memcmp_eq_0_iff t
      memcpy_msg_data_def
    by (auto simp add: hmac_size_def)
qed


text \<open>Lines 94-120 never return a message: where no check fails, the store of line 118 is
  undefined.\<close>

lemma getMessage_body_never_returns:
  "getMessage_body config hmac_sha1 header requiredMsgType sockfd data0 \<noteq> Inr r"
  by (simp add: getMessage_body_char)

text \<open>getMessage as a whole ends where parseMessageHeader ends: it never reaches line 94, never
  returns a message and never reports an unexpected type, a digest mismatch or a mode
  mismatch.\<close>

lemma getMessage_errors:
  "getMessage config hmac_sha1 stack data0 sockfd requiredMsgType = Inl Truncated \<or>
   getMessage config hmac_sha1 stack data0 sockfd requiredMsgType = Inl Undefined \<or>
   getMessage config hmac_sha1 stack data0 sockfd requiredMsgType = Inl BadMagicOrVersion"
proof -
  let ?p = "parseMessageHeader (Some (store stack (take 38 sockfd)))"
  have g: "getMessage config hmac_sha1 stack data0 sockfd requiredMsgType
             = (case ?p of Inl e \<Rightarrow> Inl e
                | Inr header \<Rightarrow>
                    getMessage_body config hmac_sha1 header requiredMsgType (drop 38 sockfd) data0)"
    by (simp add: getMessage_def read_def Let_def HEADER_SIZE_def)
  from parseMessageHeader_errors [of "Some (store stack (take 38 sockfd))"]
  show ?thesis unfolding g by auto
qed

lemma getMessage_never_returns:
  "getMessage config hmac_sha1 stack data0 sockfd requiredMsgType \<noteq> Inr r"
  using getMessage_errors [of config hmac_sha1 stack data0 sockfd requiredMsgType] by auto

section \<open>The wire format as integers\<close>

text \<open>The big-endian values of the header fields, the checksum as a sum of 16-bit words and
  as the specification's sum of integers modulo 65536, and what createMsgHeader returns.\<close>

lemma uint_byte_bounds: "0 \<le> uint (a::byte)" "uint (a::byte) < 256"
  using uint_lt2p [of a] by simp_all

lemma uint_cat16: "uint (word_cat (a::byte) (b::byte) :: ushort) = 256 * uint a + uint b"
proof -
  have "uint (word_cat a b :: ushort) = concat_bit 8 (uint b) (uint a) mod 65536"
    by (simp only: word_cat_eq' uint_word_of_int) simp
  also have "\<dots> = (uint b mod 256 + 256 * uint a) mod 65536"
    by (simp add: concat_bit_eq take_bit_eq_mod push_bit_eq_mult mult.commute)
  also have "\<dots> = 256 * uint a + uint b"
    using uint_byte_bounds [of a] uint_byte_bounds [of b] by simp
  finally show ?thesis .
qed

lemma uint_ushort_bounds: "0 \<le> uint (a::ushort)" "uint (a::ushort) < 65536"
  using uint_lt2p [of a] by simp_all

lemma uint_cat32: "uint (word_cat (a::ushort) (b::ushort) :: cint) = 65536 * uint a + uint b"
proof -
  have "uint (word_cat a b :: cint) = concat_bit 16 (uint b) (uint a) mod 4294967296"
    by (simp only: word_cat_eq' uint_word_of_int) simp
  also have "\<dots> = (uint b mod 65536 + 65536 * uint a) mod 4294967296"
    by (simp add: concat_bit_eq take_bit_eq_mod push_bit_eq_mult mult.commute)
  also have "\<dots> = 65536 * uint a + uint b"
    using uint_ushort_bounds [of a] uint_ushort_bounds [of b] by simp
  finally show ?thesis .
qed

lemma be16_cat: "be16 buf i = uint (word_cat (buf ! i) (buf ! (i + 1)) :: ushort)"
  by (simp add: be16_def uint_cat16)

lemma be32_cat:
  "be32 buf i = uint (word_cat (word_cat (buf ! i) (buf ! (i + 1)) :: ushort)
                               (word_cat (buf ! (i + 2)) (buf ! (i + 2 + 1)) :: ushort) :: cint)"
  by (simp only: be32_def be16_cat uint_cat32)

lemma checksum16_iff:
  "((t + 44 + n + f + s + 0x34e9 :: ushort) = c)
     = (spec_checksum (uint t) 44 (65536 * k + uint n) (uint f) (uint s) = uint c)"
proof -
  let ?X = "uint t + 44 + uint n + uint f + uint s + 13545"
  have "uint (t + 44 + n + f + s + 0x34e9 :: ushort) = ?X mod 65536"
    by (simp add: uint_word_ariths mod_simps)
  also have "\<dots> = (?X + 65536 * k) mod 65536"
    by simp
  also have "?X + 65536 * k = uint t + 44 + (65536 * k + uint n) + uint f + uint s + 13545"
    by simp
  finally have "uint (t + 44 + n + f + s + 0x34e9 :: ushort)
                  = spec_checksum (uint t) 44 (65536 * k + uint n) (uint f) (uint s)"
    by (simp only: spec_checksum_def PYRO_MAGIC_def) simp
  then show ?thesis by (simp add: word_uint_eq_iff)
qed


lemma low16_word_of_int: "(ucast (word_of_int k :: cint) :: ushort) = word_of_int k"
  by (simp add: word_uint_eq_iff unsigned_ucast_eq uint_word_of_int take_bit_eq_mod mod_mod_cancel)

lemma low16_eq_sint: "(ucast (x::cint) :: ushort) = word_of_int (sint x)"
proof -
  have "(word_of_int (sint x) :: cint) = x" by simp
  then show ?thesis
    using low16_word_of_int [of "sint x"] by (simp only:)
qed

lemma createMsgHeader_Some:
  assumes "createMsgHeader config hmac_sha1 msgtype (Some mem) flags sequenceNr = Inr hdr"
  obtains n where "strlen mem = Some n"
    and "createMsgHeader_fill config hmac_sha1 msgtype mem n flags sequenceNr = Inr hdr"
  using assms
  by (auto simp: createMsgHeader_def c_strlen_def null_guard_def split: option.splits)

lemma checksum_of_inputs:
  "uint (ucast (msgtype::cint) + 44 + of_nat n + ucast (fl::cint) + ucast (sq::cint) + 0x34e9 :: ushort)
     = spec_checksum (sint msgtype) 44 (int n) (sint fl) (sint sq)"
proof -
  have n: "(of_nat n :: ushort) = word_of_int (int n)" by simp
  have c: "(44 :: ushort) = word_of_int 44" "(0x34e9 :: ushort) = word_of_int 0x34e9" by simp_all
  have "(ucast msgtype + 44 + of_nat n + ucast fl + ucast sq + 0x34e9 :: ushort)
          = word_of_int (sint msgtype + 44 + int n + sint fl + sint sq + 0x34e9)"
    by (simp only: low16_eq_sint n c wi_hom_add)
  then have "uint (ucast msgtype + 44 + of_nat n + ucast fl + ucast sq + 0x34e9 :: ushort)
          = (sint msgtype + 44 + int n + sint fl + sint sq + 0x34e9) mod 65536"
    by (simp only: uint_word_of_int) simp
  then show ?thesis by (simp add: spec_checksum_def PYRO_MAGIC_def)
qed

section \<open>Arguments in the 16-bit range\<close>

lemma small_uint: "(x::cint) \<le> 0xffff \<Longrightarrow> uint x \<le> 65535"
  by (simp add: word_le_def)

lemma small_sint: "(x::cint) \<le> 0xffff \<Longrightarrow> sint x = uint x"
proof -
  assume "x \<le> 0xffff"
  then have "uint x \<le> 65535" by (rule small_uint)
  then have hi: "uint x < 2 ^ 31" by simp
  have lo: "- (2 ^ 31) \<le> uint x"
    by (rule order_trans [OF _ uint_ge_0]) simp
  from lo hi have "signed_take_bit 31 (uint x) = uint x"
    by (rule signed_take_bit_int_eq_self)
  then show ?thesis by (simp add: sint_uint)
qed

lemma small_not_sless: "(x::cint) \<le> 0xffff \<Longrightarrow> \<not> 0xffff <s x"
  using small_sint [of x] small_uint [of x] by (simp add: word_sless_alt)

lemma small_low16: "(x::cint) \<le> 0xffff \<Longrightarrow> (ucast (ucast x :: ushort) :: cint) = x"
proof -
  assume "x \<le> 0xffff"
  then have u: "uint x \<le> 65535" by (rule small_uint)
  have "uint (ucast (ucast x :: ushort) :: cint) = take_bit 32 (take_bit 16 (uint x))"
    by (simp only: unsigned_ucast_eq) (simp add: unsigned_take_bit_eq)
  also have "\<dots> = uint x"
    using u by (simp add: take_bit_eq_mod)
  finally show ?thesis by (simp only: word_uint_eq_iff)
qed

lemma small_or_hmac: "(x::cint) \<le> 0xffff \<Longrightarrow> x OR 8 \<le> 0xffff"
proof -
  assume "x \<le> 0xffff"
  then have u: "uint x \<le> 65535" by (rule small_uint)
  have "uint x OR 8 < 2 ^ 16"
    using u by (intro OR_upper) simp_all
  then show ?thesis by (simp add: word_le_def uint_or)
qed


lemma fill_returns:
  "\<not> 0xffff <s sequenceNr \<Longrightarrow>
     \<exists>hdr. createMsgHeader_fill config hmac_sha1 msgtype mem n flags sequenceNr = Inr hdr"
  by (simp add: createMsgHeader_fill_def Let_def split: option.splits prod.splits)

lemma fill_checksum_consistent:
  assumes "createMsgHeader_fill config hmac_sha1 msgtype mem n flags sequenceNr = Inr hdr"
  shows "(word_cat (hdr ! 6) (hdr ! 7) + 44 + word_cat (hdr ! 14) (hdr ! 15)
           + word_cat (hdr ! 8) (hdr ! 9) + word_cat (hdr ! 10) (hdr ! 11) + 0x34e9 :: ushort)
          = word_cat (hdr ! 16) (hdr ! 17)"
  by (simp only: fill_bytes(3,4,5,7,8) [OF assms])

lemma datasize_of_nat:
  "(word_cat (ucast (drop_bit 16 (of_nat n :: size_t)) :: ushort) (of_nat n :: ushort) :: cint) = of_nat n"
proof -
  have "(word_cat (ucast (drop_bit 16 (of_nat n :: size_t)) :: ushort)
                  (ucast (of_nat n :: size_t) :: ushort) :: cint) = ucast (of_nat n :: size_t)"
    by (rule cat32)
  moreover have "(ucast (of_nat n :: size_t) :: cint) = of_nat n"
    by (simp add: word_unat_eq_iff unsigned_ucast_eq unsigned_of_nat take_bit_eq_mod mod_mod_cancel)
  ultimately show ?thesis by (simp only: low16_of_nat)
qed

lemma sint_of_nat_small: "n < 2 ^ 31 \<Longrightarrow> sint (of_nat n :: cint) = int n"
proof -
  assume n: "n < 2 ^ 31"
  then have u: "uint (of_nat n :: cint) = int n"
    by (simp add: unsigned_of_nat take_bit_eq_mod)
  have hi: "uint (of_nat n :: cint) < 2 ^ 31" using n u by simp
  have lo: "- (2 ^ 31) \<le> uint (of_nat n :: cint)"
    by (rule order_trans [OF _ uint_ge_0]) simp
  from lo hi have "signed_take_bit 31 (uint (of_nat n :: cint)) = uint (of_nat n :: cint)"
    by (rule signed_take_bit_int_eq_self)
  then show ?thesis using u by (simp add: sint_uint)
qed

section \<open>Flipping one bit of a header\<close>

lemma flip_nth:
  "i < length buf \<Longrightarrow>
     flip_header_bit buf i k ! j = (if j = i then buf ! i XOR push_bit k 1 else buf ! j)"
  by (simp add: flip_header_bit_def nth_list_update)

lemma cat_flip_hi: "k < 8 \<Longrightarrow> (word_cat ((a::byte) XOR push_bit k 1) (b::byte) :: ushort) \<noteq> word_cat a b"
  using xor_bit_neq [of k a] by (simp add: word_cat_bytes_eq)

lemma cat_flip_lo: "k < 8 \<Longrightarrow> (word_cat (a::byte) ((b::byte) XOR push_bit k 1) :: ushort) \<noteq> word_cat a b"
  using xor_bit_neq [of k b] by (simp add: word_cat_bytes_eq)

lemma fields_bad_magic:
  "buf ! 0 \<noteq> 0x50 \<or> buf ! 1 \<noteq> 0x59 \<or> buf ! 2 \<noteq> 0x52 \<or> buf ! 3 \<noteq> 0x4F \<or>
     (word_cat (buf ! 4) (buf ! 5) :: ushort) \<noteq> 44
   \<Longrightarrow> parseMessageHeader_fields buf = Inl BadMagicOrVersion"
  by (simp only: fields_char if_True)

lemma fields_checksum_mismatch:
  assumes "buf ! 0 = 0x50" "buf ! 1 = 0x59" "buf ! 2 = 0x52" "buf ! 3 = 0x4F"
    and "(word_cat (buf ! 4) (buf ! 5) :: ushort) = 44"
    and "(word_cat (buf ! 6) (buf ! 7) :: ushort) + 44 + word_cat (buf ! 14) (buf ! 15)
           + word_cat (buf ! 8) (buf ! 9) + word_cat (buf ! 10) (buf ! 11) + 0x34e9
         \<noteq> word_cat (buf ! 16) (buf ! 17)"
  shows "parseMessageHeader_fields buf = Inl ChecksumMismatch"
  by (simp only: fields_char assms) simp

lemma flip_nth_other: "j \<noteq> i \<Longrightarrow> flip_header_bit buf i k ! j = buf ! j"
  by (simp add: flip_header_bit_def)

lemma fields_accepts:
  assumes "buf ! 0 = 0x50" "buf ! 1 = 0x59" "buf ! 2 = 0x52" "buf ! 3 = 0x4F"
    and "(word_cat (buf ! 4) (buf ! 5) :: ushort) = 44"
    and "(word_cat (buf ! 6) (buf ! 7) :: ushort) + 44 + word_cat (buf ! 14) (buf ! 15)
           + word_cat (buf ! 8) (buf ! 9) + word_cat (buf ! 10) (buf ! 11) + 0x34e9
         = word_cat (buf ! 16) (buf ! 17)"
  shows "\<exists>h. parseMessageHeader_fields buf = Inr h"
  by (simp only: fields_char assms) simp

lemma flip_undetected:
  assumes f: "createMsgHeader_fill config hmac_sha1 msgtype mem n flags sequenceNr = Inr hdr"
    and i: "i = 12 \<or> i = 13 \<or> 18 \<le> i"
  shows "\<exists>h. parseMessageHeader_fields (flip_header_bit hdr i k) = Inr h"
proof -
  note b = fill_bytes [OF f]
  note ck = fill_checksum_consistent [OF f]
  have same: "flip_header_bit hdr i k ! j = hdr ! j" if "j < 12 \<or> j = 14 \<or> j = 15 \<or> j = 16 \<or> j = 17" for j
    using that i by (intro flip_nth_other) auto
  show ?thesis
    by (rule fields_accepts) (use b(1) in \<open>simp_all add: same b(2) ck\<close>)
qed

section \<open>The header checksum\<close>

text \<open>In every header that createMsgHeader returns, the 16-bit big-endian value at offset 16
  is (type + protocol version + body length + flags + sequence + PYRO_MAGIC) mod 65536, both
  for the arguments of the call (the flags being those written to the header) and for the
  field values as encoded in the header.\<close>

lemma createMsgHeader_checksum:
  assumes "createMsgHeader config hmac_sha1 msgtype (Some mem) flags sequenceNr = Inr hdr"
  shows "be16 hdr 16 = spec_checksum (sint msgtype) (uint PROTOCOL_VERSION)
                      (int (length (takeWhile (\<lambda>b. b \<noteq> 0) mem)))
                      (sint (if hmac_key config = None then flags else flags OR ucast FLAGS_HMAC))
                      (sint sequenceNr)"
    and "be16 hdr 16 = spec_checksum (be16 hdr 6) (be16 hdr 4) (be32 hdr 12) (be16 hdr 8) (be16 hdr 10)"
proof -
  from assms obtain n where n: "strlen mem = Some n"
    and f: "createMsgHeader_fill config hmac_sha1 msgtype mem n flags sequenceNr = Inr hdr"
    by (rule createMsgHeader_Some)
  let ?fl = "case hmac_key config of Some key \<Rightarrow> flags OR 8 | None \<Rightarrow> flags"
  have fl: "?fl = (if hmac_key config = None then flags else flags OR ucast FLAGS_HMAC)"
    by (simp add: FLAGS_HMAC_def split: option.splits)
  have len: "n = length (takeWhile (\<lambda>b. b \<noteq> 0) mem)"
    using strlen_takeWhile [OF n] by simp
  note b = fill_bytes [OF f]
  have "be16 hdr 16 = uint (ucast msgtype + 44 + of_nat n + ucast ?fl + ucast sequenceNr + 0x34e9 :: ushort)"
    using b(8) by (simp add: be16_cat)
  also have "\<dots> = spec_checksum (sint msgtype) 44 (int n) (sint ?fl) (sint sequenceNr)"
    by (rule checksum_of_inputs)
  finally show "be16 hdr 16 = spec_checksum (sint msgtype) (uint PROTOCOL_VERSION)
                      (int (length (takeWhile (\<lambda>b. b \<noteq> 0) mem)))
                      (sint (if hmac_key config = None then flags else flags OR ucast FLAGS_HMAC))
                      (sint sequenceNr)"
    by (simp only: fl len PROTOCOL_VERSION_def) simp
  have "(word_cat (hdr ! 6) (hdr ! 7) + 44 + word_cat (hdr ! 14) (hdr ! 15)
           + word_cat (hdr ! 8) (hdr ! 9) + word_cat (hdr ! 10) (hdr ! 11) + 0x34e9 :: ushort)
          = word_cat (hdr ! 16) (hdr ! 17)"
    by (simp only: b(3,4,5,7,8))
  then have "spec_checksum (uint (word_cat (hdr ! 6) (hdr ! 7) :: ushort)) 44
               (65536 * uint (word_cat (hdr ! 12) (hdr ! 13) :: ushort)
                  + uint (word_cat (hdr ! 14) (hdr ! 15) :: ushort))
               (uint (word_cat (hdr ! 8) (hdr ! 9) :: ushort))
               (uint (word_cat (hdr ! 10) (hdr ! 11) :: ushort))
             = uint (word_cat (hdr ! 16) (hdr ! 17) :: ushort)"
    by (rule checksum16_iff [THEN iffD1])
  moreover have "be16 hdr 4 = 44"
    using b(2) by (simp add: be16_cat)
  ultimately show "be16 hdr 16 = spec_checksum (be16 hdr 6) (be16 hdr 4) (be32 hdr 12) (be16 hdr 8) (be16 hdr 10)"
    by (simp add: be16_cat be32_cat uint_cat32)
qed

text \<open>The checksum comparison of lines 160-168, for a buffer of at least 38 bytes that
  carries the magic tag and the protocol version: the code behind the size guard recomputes
  the same sum over the decoded fields and returns them exactly when it equals the value at
  offset 16.\<close>

lemma parseMessageHeader_fields_checksum:
  assumes "38 \<le> length buf" and "take 4 buf = [0x50, 0x59, 0x52, 0x4F]"
    and "be16 buf 4 = uint PROTOCOL_VERSION"
  shows "parseMessageHeader_fields buf =
        (if spec_checksum (be16 buf 6) (be16 buf 4) (be32 buf 12) (be16 buf 8) (be16 buf 10)
              = be16 buf 16
         then Inr \<lparr>header_type = word_of_int (be16 buf 6),
                   header_flags = word_of_int (be16 buf 8),
                   header_sequence = word_of_int (be16 buf 10),
                   header_datasize = word_of_int (be32 buf 12),
                   header_hmac = take 20 (drop 18 buf)\<rparr>
         else Inl ChecksumMismatch)"
proof -
  from assms have h: "38 \<le> length buf \<and> take 4 buf = [0x50, 0x59, 0x52, 0x4F] \<and>
    be16 buf 4 = uint PROTOCOL_VERSION"
    by simp
  have magic: "buf ! 0 = 0x50" "buf ! 1 = 0x59" "buf ! 2 = 0x52" "buf ! 3 = 0x4F"
  proof -
    have "buf ! i = take 4 buf ! i" if "i < 4" for i using that by simp
    with h show "buf ! 0 = 0x50" "buf ! 1 = 0x59" "buf ! 2 = 0x52" "buf ! 3 = 0x4F" by simp_all
  qed
  have version: "(word_cat (buf ! 4) (buf ! 5) :: ushort) = 44"
    using h by (simp add: be16_cat word_uint_eq_iff PROTOCOL_VERSION_def)
  have v: "be16 buf 4 = 44"
    using h by (simp add: PROTOCOL_VERSION_def)
  have r: "be16 buf 6 = uint (word_cat (buf ! 6) (buf ! 7) :: ushort)"
    "be16 buf 8 = uint (word_cat (buf ! 8) (buf ! 9) :: ushort)"
    "be16 buf 10 = uint (word_cat (buf ! 10) (buf ! 11) :: ushort)"
    "be16 buf 16 = uint (word_cat (buf ! 16) (buf ! 17) :: ushort)"
    "be32 buf 12 = 65536 * uint (word_cat (buf ! 12) (buf ! 13) :: ushort)
                     + uint (word_cat (buf ! 14) (buf ! 15) :: ushort)"
    by (simp_all add: be16_cat be32_cat uint_cat32)
  have ck: "((word_cat (buf ! 6) (buf ! 7) :: ushort) + 44 + word_cat (buf ! 14) (buf ! 15)
                + word_cat (buf ! 8) (buf ! 9) + word_cat (buf ! 10) (buf ! 11) + 0x34e9
              = word_cat (buf ! 16) (buf ! 17))
            = (spec_checksum (be16 buf 6) (be16 buf 4) (be32 buf 12) (be16 buf 8) (be16 buf 10)
                 = be16 buf 16)"
    by (simp only: v r) (rule checksum16_iff)
  have f: "(ucast (word_cat (buf ! 6) (buf ! 7) :: ushort) :: cint) = word_of_int (be16 buf 6)"
    "(ucast (word_cat (buf ! 8) (buf ! 9) :: ushort) :: cint) = word_of_int (be16 buf 8)"
    "(ucast (word_cat (buf ! 10) (buf ! 11) :: ushort) :: cint) = word_of_int (be16 buf 10)"
    by (simp_all add: be16_cat)
  have d: "(word_cat (word_cat (buf ! 12) (buf ! 13) :: ushort) (word_cat (buf ! 14) (buf ! 15) :: ushort) :: cint)
             = word_of_int (be32 buf 12)"
    by (simp add: be32_cat)
  show "parseMessageHeader_fields buf =
        (if spec_checksum (be16 buf 6) (be16 buf 4) (be32 buf 12) (be16 buf 8) (be16 buf 10)
              = be16 buf 16
         then Inr \<lparr>header_type = word_of_int (be16 buf 6),
                   header_flags = word_of_int (be16 buf 8),
                   header_sequence = word_of_int (be16 buf 10),
                   header_datasize = word_of_int (be32 buf 12),
                   header_hmac = take 20 (drop 18 buf)\<rparr>
         else Inl ChecksumMismatch)"
    by (simp only: fields_char magic version ck f d) simp
qed

section \<open>The claims\<close>

text \<open>Theorems about \<open>createMsgHeader\<close>, \<open>parseMessageHeader\<close> and \<open>getMessage\<close> hold for
  the functions as a whole. Theorems about \<open>parseMessageHeader_fields\<close> and \<open>getMessage_body\<close>
  hold for the code behind the size guard of parseMessageHeader and behind the header
  decoding of getMessage; by \<open>parseMessageHeader_never_returns\<close> that guard lets no buffer
  reach them. In the examples evaluated on concrete inputs, \<open>hmac_sha1\<close> is a stand-in that
  returns the first 20 bytes of the key, the body and a fixed padding; the secret is "cylc",
  as client.c sets it; arrays that the source leaves uninitialised hold 0xAA.\<close>

subsection \<open>C1: the digest check of getMessage\<close>

text \<open>C1. Claimed: with the HMAC flag set and a secret configured, getMessage fails with
  AuthenticationFailed exactly when the recomputed digest differs from the header's digest.
  Lines 100-108 do the opposite, \<^verbatim>\<open>if (! memcmp(header.hmac, bodyhmac, hmac_size))\<close>: when
  the type check has passed, the flag is set and a secret is configured, they fail with
  AuthenticationFailed exactly when the two digests are equal; when they differ the check
  lets the message through, to the store of line 118. The witness is a message signed with
  the receiver's own secret, which is rejected.\<close>

theorem getMessage_body_digest_check_inverted:
  assumes "bit (header_flags header) 3" and "hmac_key config = Some key"
    and "requiredMsgType = 0 \<or> header_type header = requiredMsgType"
  shows "getMessage_body config hmac_sha1 header requiredMsgType sockfd data0 =
     (if take 20 (header_hmac header)
           = take 20 (hmac_sha1 (take (keyLen config) key) (take 256 sockfd))
      then Inl AuthenticationFailed
      else Inl Undefined)"
  using assms by (auto simp: getMessage_body_char)

theorem getMessage_body_digest_check_inverted_witness:
  "bit (8 :: cint) 3 \<and>
   take 20 [0x63, 0x79, 0x6c, 0x63, 0x68, 0x69, 1, 2, 3, 4, 5, 6, 7, 8, 9, 10, 11, 12, 13, 14 :: byte]
     = take 20 ((\<lambda>k d. take 20 (k @ d @ [1, 2, 3, 4, 5, 6, 7, 8, 9, 10, 11, 12, 13, 14, 15, 16, 17, 18, 19, 20]))
                 (take 4 [0x63, 0x79, 0x6c, 0x63, 0]) (take 256 [0x68, 0x69])) \<and>
   getMessage_body \<lparr>hmac_key = Some [0x63, 0x79, 0x6c, 0x63, 0], keyLen = 4\<rparr>
       (\<lambda>k d. take 20 (k @ d @ [1, 2, 3, 4, 5, 6, 7, 8, 9, 10, 11, 12, 13, 14, 15, 16, 17, 18, 19, 20]))
       \<lparr>header_type = 4, header_flags = 8, header_sequence = 7, header_datasize = 2,
          header_hmac = [0x63, 0x79, 0x6c, 0x63, 0x68, 0x69, 1, 2, 3, 4, 5, 6, 7, 8, 9, 10, 11, 12, 13, 14]\<rparr>
       4 [0x68, 0x69] (replicate 256 0)
     = Inl AuthenticationFailed"
  using getMessage_body_digest_check_inverted
          [of "\<lparr>header_type = 4, header_flags = 8, header_sequence = 7, header_datasize = 2,
                 header_hmac = [0x63, 0x79, 0x6c, 0x63, 0x68, 0x69, 1, 2, 3, 4, 5, 6, 7, 8, 9, 10, 11, 12, 13, 14]\<rparr>"
              "\<lparr>hmac_key = Some [0x63, 0x79, 0x6c, 0x63, 0], keyLen = 4\<rparr>"
              "[0x63, 0x79, 0x6c, 0x63, 0]" 4
              "\<lambda>k d. take 20 (k @ d @ [1, 2, 3, 4, 5, 6, 7, 8, 9, 10, 11, 12, 13, 14, 15, 16, 17, 18, 19, 20])"
              "[0x68, 0x69]" "replicate 256 0"]
  by simp

subsection \<open>C2: decoding an encoded header\<close>

text \<open>C2, as claimed: parseMessageHeader applied to the header that createMsgHeader produced
  returns the original type, flags, sequence number and body length, without error. It does
  not. For an INVOKE message with body "hi", flags 0 and sequence 7, built with the secret
  "cylc", parseMessageHeader rejects the 38 bytes with the size-mismatch error (its guard
  measures the buffer with \<^verbatim>\<open>strlen\<close>, and the byte at offset 4 is zero); and the field
  decoding behind that guard yields flags 8, not the caller's 0, because createMsgHeader
  forces the HMAC flag on when a secret is configured.\<close>

theorem createMsgHeader_roundtrip_fails:
  "createMsgHeader \<lparr>hmac_key = Some [0x63, 0x79, 0x6c, 0x63, 0], keyLen = 4\<rparr>
       (\<lambda>k d. take 20 (k @ d @ [1, 2, 3, 4, 5, 6, 7, 8, 9, 10, 11, 12, 13, 14, 15, 16, 17, 18, 19, 20]))
       4 (Some [0x68, 0x69, 0]) 0 7
     = Inr [0x50, 0x59, 0x52, 0x4F, 0, 44, 0, 4, 0, 8, 0, 7, 0, 0, 0, 2, 53, 42,
            0x63, 0x79, 0x6c, 0x63, 0x68, 0x69, 1, 2, 3, 4, 5, 6, 7, 8, 9, 10, 11, 12, 13, 14] \<and>
   parseMessageHeader
       (Some [0x50, 0x59, 0x52, 0x4F, 0, 44, 0, 4, 0, 8, 0, 7, 0, 0, 0, 2, 53, 42,
              0x63, 0x79, 0x6c, 0x63, 0x68, 0x69, 1, 2, 3, 4, 5, 6, 7, 8, 9, 10, 11, 12, 13, 14])
     = Inl Truncated \<and>
   parseMessageHeader_fields
       [0x50, 0x59, 0x52, 0x4F, 0, 44, 0, 4, 0, 8, 0, 7, 0, 0, 0, 2, 53, 42,
        0x63, 0x79, 0x6c, 0x63, 0x68, 0x69, 1, 2, 3, 4, 5, 6, 7, 8, 9, 10, 11, 12, 13, 14]
     = Inr \<lparr>header_type = 4, header_flags = 8, header_sequence = 7, header_datasize = 2,
             header_hmac = [0x63, 0x79, 0x6c, 0x63, 0x68, 0x69, 1, 2, 3, 4, 5, 6, 7, 8, 9, 10, 11, 12, 13, 14]\<rparr>"
  by code_simp

text \<open>C2, amended: for a type, flags and sequence number in the range 0 to 65535 and a body
  (a C string) shorter than \<open>2 ^ 31\<close> bytes, createMsgHeader returns a header, and the field
  decoding of parseMessageHeader (lines 134-172, behind the size guard) applied to that header
  returns, without error, the original type and sequence number, the body's length, the
  caller's flags with the HMAC flag forced on when a secret is configured (the caller's flags
  as they are otherwise), and the digest that createMsgHeader stored.\<close>

theorem createMsgHeader_fields_roundtrip:
  assumes "msgtype \<le> 0xffff" and "flags \<le> 0xffff" and "sequenceNr \<le> 0xffff"
    and "strlen mem = Some n" and "n < 2 ^ 31"
  shows "\<exists>hdr. createMsgHeader config hmac_sha1 msgtype (Some mem) flags sequenceNr = Inr hdr \<and>
           parseMessageHeader_fields hdr =
             Inr \<lparr>header_type = msgtype,
                   header_flags = (if hmac_key config = None then flags
                                   else flags OR ucast FLAGS_HMAC),
                   header_sequence = sequenceNr,
                   header_datasize = of_nat n,
                   header_hmac =
                     take 20 (case hmac_key config of
                                None \<Rightarrow> replicate 20 0
                              | Some key \<Rightarrow> hmac_sha1 (take (keyLen config) key)
                                                        (takeWhile (\<lambda>b. b \<noteq> 0) mem))\<rparr> \<and>
           sint (of_nat n :: cint) = int (length (takeWhile (\<lambda>b. b \<noteq> 0) mem))"
proof -
  from assms(3) have "\<not> 0xffff <s sequenceNr" by (rule small_not_sless)
  then obtain hdr
    where f: "createMsgHeader_fill config hmac_sha1 msgtype mem n flags sequenceNr = Inr hdr"
    using fill_returns by blast
  have c: "createMsgHeader config hmac_sha1 msgtype (Some mem) flags sequenceNr = Inr hdr"
    using f assms(4) by (simp add: createMsgHeader_def c_strlen_def null_guard_def)
  let ?fl = "case hmac_key config of Some key \<Rightarrow> flags OR 8 | None \<Rightarrow> flags"
  let ?dg = "case hmac_key config of
               Some key \<Rightarrow> hmac_sha1 (take (keyLen config) key) (take n mem)
             | None \<Rightarrow> replicate 20 0"
  note b = fill_bytes [OF f]
  have body: "take n mem = takeWhile (\<lambda>b. b \<noteq> 0) mem"
    and len: "n = length (takeWhile (\<lambda>b. b \<noteq> 0) mem)"
    using strlen_takeWhile [OF assms(4)] by blast+
  have fl_small: "?fl \<le> 0xffff"
    using assms(2) small_or_hmac [OF assms(2)] by (simp split: option.splits)
  have t: "(ucast (word_cat (hdr ! 6) (hdr ! 7) :: ushort) :: cint) = msgtype"
    by (simp only: b(3) small_low16 [OF assms(1)])
  have fl: "(ucast (word_cat (hdr ! 8) (hdr ! 9) :: ushort) :: cint) = ?fl"
    by (simp only: b(4) small_low16 [OF fl_small])
  have sq: "(ucast (word_cat (hdr ! 10) (hdr ! 11) :: ushort) :: cint) = sequenceNr"
    by (simp only: b(5) small_low16 [OF assms(3)])
  have ds: "(word_cat (word_cat (hdr ! 12) (hdr ! 13) :: ushort)
                      (word_cat (hdr ! 14) (hdr ! 15) :: ushort) :: cint) = of_nat n"
    by (simp only: b(6) b(7) datasize_of_nat)
  have hm: "take 20 (drop 18 hdr) = take 20 ?dg"
    by (simp only: b(9)) simp
  have fl': "?fl = (if hmac_key config = None then flags else flags OR ucast FLAGS_HMAC)"
    by (simp add: FLAGS_HMAC_def split: option.splits)
  have dg': "?dg = (case hmac_key config of
                      None \<Rightarrow> replicate 20 0
                    | Some key \<Rightarrow> hmac_sha1 (take (keyLen config) key)
                                              (takeWhile (\<lambda>b. b \<noteq> 0) mem))"
    by (simp add: body split: option.splits)
  have fl2: "(ucast (word_cat (hdr ! 8) (hdr ! 9) :: ushort) :: cint)
               = (if hmac_key config = None then flags else flags OR ucast FLAGS_HMAC)"
    using fl fl' by (rule trans)
  have hm2: "take 20 (drop 18 hdr) =
               take 20 (case hmac_key config of
                          None \<Rightarrow> replicate 20 0
                        | Some key \<Rightarrow> hmac_sha1 (take (keyLen config) key)
                                                  (takeWhile (\<lambda>b. b \<noteq> 0) mem))"
    using hm dg' by (rule trans [OF _ arg_cong])
  have p: "parseMessageHeader_fields hdr =
             Inr \<lparr>header_type = msgtype,
                   header_flags = (if hmac_key config = None then flags
                                   else flags OR ucast FLAGS_HMAC),
                   header_sequence = sequenceNr,
                   header_datasize = of_nat n,
                   header_hmac =
                     take 20 (case hmac_key config of
                                None \<Rightarrow> replicate 20 0
                              | Some key \<Rightarrow> hmac_sha1 (take (keyLen config) key)
                                                        (takeWhile (\<lambda>b. b \<noteq> 0) mem))\<rparr>"
    by (simp only: fields_char b(1) b(2) fill_checksum_consistent [OF f] t fl2 sq ds hm2) simp
  have "sint (of_nat n :: cint) = int n"
    using assms(5) by (rule sint_of_nat_small)
  then have s: "sint (of_nat n :: cint) = int (length (takeWhile (\<lambda>b. b \<noteq> 0) mem))"
    using len by (rule back_subst [where P = "\<lambda>k. sint (of_nat n :: cint) = int k"])
  from c p s show ?thesis
    by (intro exI [of _ hdr] conjI)
qed

theorem createMsgHeader_fields_roundtrip_witness:
  "(4 :: cint) \<le> 0xffff \<and> (1 :: cint) \<le> 0xffff \<and> (7 :: cint) \<le> 0xffff \<and>
   strlen [0x68, 0x69, 0] = Some 2 \<and> (2 :: nat) < 2 ^ 31 \<and>
   (\<exists>hdr. createMsgHeader \<lparr>hmac_key = None, keyLen = 0\<rparr> (\<lambda>k d. []) 4
             (Some [0x68, 0x69, 0]) 1 7 = Inr hdr \<and>
          parseMessageHeader_fields hdr =
            Inr \<lparr>header_type = 4, header_flags = 1, header_sequence = 7, header_datasize = 2,
                  header_hmac = replicate 20 0\<rparr>)"
proof -
  have h: "(4 :: cint) \<le> 0xffff" "(1 :: cint) \<le> 0xffff" "(7 :: cint) \<le> 0xffff"
    "strlen [0x68, 0x69, 0] = Some 2" "(2 :: nat) < 2 ^ 31"
    by simp_all
  from createMsgHeader_fields_roundtrip
         [OF h, where config = "\<lparr>hmac_key = None, keyLen = 0\<rparr>" and ?hmac_sha1.0 = "\<lambda>k d. []"]
       h
  show ?thesis by simp
qed

subsection \<open>C3: single bit flips and the checksum\<close>

text \<open>C3, as claimed: flipping any one bit of an encoded header outside offsets 16-17 makes
  the decoding fail with ChecksumMismatch. It does not. In the header of an INVOKE message
  with body "hi" (no secret, flags 0, sequence 0): a flipped bit in the digest (offset 18) is
  accepted by the field decoding, with the changed digest; a flipped bit in the upper half
  of the body length (offset 13) is accepted, with body length 65538, since the checksum is
  taken modulo 65536; a flipped bit in the magic tag (offset 0) fails with BadMagicOrVersion;
  and parseMessageHeader as a whole rejects a buffer with a flipped bit at offset 7 with the
  size-mismatch error of its guard.\<close>

theorem header_bit_flip_not_always_checksum_mismatch:
  "createMsgHeader \<lparr>hmac_key = None, keyLen = 0\<rparr> (\<lambda>k d. []) 4 (Some [0x68, 0x69, 0]) 0 0
     = Inr [0x50, 0x59, 0x52, 0x4F, 0, 44, 0, 4, 0, 0, 0, 0, 0, 0, 0, 2, 53, 27,
            0, 0, 0, 0, 0, 0, 0, 0, 0, 0, 0, 0, 0, 0, 0, 0, 0, 0, 0, 0] \<and>
   parseMessageHeader_fields
       (flip_header_bit [0x50, 0x59, 0x52, 0x4F, 0, 44, 0, 4, 0, 0, 0, 0, 0, 0, 0, 2, 53, 27,
                  0, 0, 0, 0, 0, 0, 0, 0, 0, 0, 0, 0, 0, 0, 0, 0, 0, 0, 0, 0] 18 0)
     = Inr \<lparr>header_type = 4, header_flags = 0, header_sequence = 0, header_datasize = 2,
             header_hmac = [1, 0, 0, 0, 0, 0, 0, 0, 0, 0, 0, 0, 0, 0, 0, 0, 0, 0, 0, 0]\<rparr> \<and>
   parseMessageHeader_fields
       (flip_header_bit [0x50, 0x59, 0x52, 0x4F, 0, 44, 0, 4, 0, 0, 0, 0, 0, 0, 0, 2, 53, 27,
                  0, 0, 0, 0, 0, 0, 0, 0, 0, 0, 0, 0, 0, 0, 0, 0, 0, 0, 0, 0] 13 0)
     = Inr \<lparr>header_type = 4, header_flags = 0, header_sequence = 0, header_datasize = 65538,
             header_hmac = [0, 0, 0, 0, 0, 0, 0, 0, 0, 0, 0, 0, 0, 0, 0, 0, 0, 0, 0, 0]\<rparr> \<and>
   parseMessageHeader_fields
       (flip_header_bit [0x50, 0x59, 0x52, 0x4F, 0, 44, 0, 4, 0, 0, 0, 0, 0, 0, 0, 2, 53, 27,
                  0, 0, 0, 0, 0, 0, 0, 0, 0, 0, 0, 0, 0, 0, 0, 0, 0, 0, 0, 0] 0 0)
     = Inl BadMagicOrVersion \<and>
   parseMessageHeader
       (Some (flip_header_bit [0x50, 0x59, 0x52, 0x4F, 0, 44, 0, 4, 0, 0, 0, 0, 0, 0, 0, 2, 53, 27,
                  0, 0, 0, 0, 0, 0, 0, 0, 0, 0, 0, 0, 0, 0, 0, 0, 0, 0, 0, 0] 7 0))
     = Inl Truncated"
  by code_simp

text \<open>C3, amended: for every header that createMsgHeader returns and every bit \<open>k\<close> of a
  byte at offset \<open>i\<close>, the field decoding of parseMessageHeader (lines 134-172, behind the
  size guard) applied to the header with that bit flipped fails with BadMagicOrVersion when
  \<open>i\<close> is in the magic tag or the protocol version (offsets 0-5), and with ChecksumMismatch
  when \<open>i\<close> is in the type, the flags, the sequence number or the lower half of the body
  length (offsets 6-11 and 14-15). When \<open>i\<close> is in the upper half of the body length (offsets
  12-13) or in the digest (offset 18 and beyond) the flip goes unnoticed: the decoding
  returns a header.\<close>

theorem header_bit_flip_detected:
  assumes "createMsgHeader config hmac_sha1 msgtype (Some mem) flags sequenceNr = Inr hdr"
    and "k < 8"
  shows "(i < 6 \<longrightarrow> parseMessageHeader_fields (flip_header_bit hdr i k) = Inl BadMagicOrVersion) \<and>
         (i \<in> {6, 7, 8, 9, 10, 11, 14, 15} \<longrightarrow>
            parseMessageHeader_fields (flip_header_bit hdr i k) = Inl ChecksumMismatch) \<and>
         (i = 12 \<or> i = 13 \<or> 18 \<le> i \<longrightarrow>
            (\<exists>h. parseMessageHeader_fields (flip_header_bit hdr i k) = Inr h))"
proof -
  from assms(1) obtain n
    where f: "createMsgHeader_fill config hmac_sha1 msgtype mem n flags sequenceNr = Inr hdr"
    by (rule createMsgHeader_Some)
  note b = fill_bytes [OF f]
  note ck = fill_checksum_consistent [OF f, symmetric]
  have len: "18 \<le> length hdr" by (simp add: b(10))
  have nth: "flip_header_bit hdr i' k ! j = (if j = i' then hdr ! i' XOR push_bit k 1 else hdr ! j)"
    if "i' < 18" for i' j
    using that len by (intro flip_nth) simp
  have x: "(a::byte) XOR push_bit k 1 \<noteq> a" for a
    using assms(2) by (rule xor_bit_neq)
  note hi = cat_flip_hi [OF assms(2)] and lo = cat_flip_lo [OF assms(2)]
  have bad: "parseMessageHeader_fields (flip_header_bit hdr i k) = Inl BadMagicOrVersion" if "i < 6"
  proof -
    from that consider "i = 0" | "i = 1" | "i = 2" | "i = 3" | "i = 4" | "i = 5" by linarith
    then show ?thesis
    proof cases
      case 1
      with b(1) x [of "hdr ! 0"] show ?thesis
        by (intro fields_bad_magic) (simp add: nth)
    next
      case 2
      with b(1) x [of "hdr ! 1"] show ?thesis
        by (intro fields_bad_magic) (simp add: nth)
    next
      case 3
      with b(1) x [of "hdr ! 2"] show ?thesis
        by (intro fields_bad_magic) (simp add: nth)
    next
      case 4
      with b(1) x [of "hdr ! 3"] show ?thesis
        by (intro fields_bad_magic) (simp add: nth)
    next
      case 5
      with b(2) hi [of "hdr ! 4" "hdr ! 5"] show ?thesis
        by (intro fields_bad_magic) (simp add: nth)
    next
      case 6
      with b(2) lo [of "hdr ! 4" "hdr ! 5"] show ?thesis
        by (intro fields_bad_magic) (simp add: nth)
    qed
  qed
  have mis: "parseMessageHeader_fields (flip_header_bit hdr i k) = Inl ChecksumMismatch"
    if "i \<in> {6, 7, 8, 9, 10, 11, 14, 15}"
  proof -
    from that consider "i = 6" | "i = 7" | "i = 8" | "i = 9" | "i = 10" | "i = 11"
      | "i = 14" | "i = 15" by auto
    then show ?thesis
    proof cases
      case 1
      with b(1) b(2) hi [of "hdr ! 6" "hdr ! 7"] show ?thesis
        by (intro fields_checksum_mismatch) (simp_all add: nth ck)
    next
      case 2
      with b(1) b(2) lo [of "hdr ! 6" "hdr ! 7"] show ?thesis
        by (intro fields_checksum_mismatch) (simp_all add: nth ck)
    next
      case 3
      with b(1) b(2) hi [of "hdr ! 8" "hdr ! 9"] show ?thesis
        by (intro fields_checksum_mismatch) (simp_all add: nth ck)
    next
      case 4
      with b(1) b(2) lo [of "hdr ! 8" "hdr ! 9"] show ?thesis
        by (intro fields_checksum_mismatch) (simp_all add: nth ck)
    next
      case 5
      with b(1) b(2) hi [of "hdr ! 10" "hdr ! 11"] show ?thesis
        by (intro fields_checksum_mismatch) (simp_all add: nth ck)
    next
      case 6
      with b(1) b(2) lo [of "hdr ! 10" "hdr ! 11"] show ?thesis
        by (intro fields_checksum_mismatch) (simp_all add: nth ck)
    next
      case 7
      with b(1) b(2) hi [of "hdr ! 14" "hdr ! 15"] show ?thesis
        by (intro fields_checksum_mismatch) (simp_all add: nth ck)
    next
      case 8
      with b(1) b(2) lo [of "hdr ! 14" "hdr ! 15"] show ?thesis
        by (intro fields_checksum_mismatch) (simp_all add: nth ck)
    qed
  qed
  have acc: "\<exists>h. parseMessageHeader_fields (flip_header_bit hdr i k) = Inr h"
    if "i = 12 \<or> i = 13 \<or> 18 \<le> i"
    using f that by (rule flip_undetected)
  from bad mis acc show ?thesis by blast
qed

theorem header_bit_flip_detected_witness:
  "createMsgHeader \<lparr>hmac_key = None, keyLen = 0\<rparr> (\<lambda>k d. []) 4 (Some [0x68, 0x69, 0]) 0 0
     = Inr [0x50, 0x59, 0x52, 0x4F, 0, 44, 0, 4, 0, 0, 0, 0, 0, 0, 0, 2, 53, 27,
            0, 0, 0, 0, 0, 0, 0, 0, 0, 0, 0, 0, 0, 0, 0, 0, 0, 0, 0, 0] \<and>
   (0 :: nat) < 8 \<and> (3 :: nat) < 6 \<and> (7 :: nat) \<in> {6, 7, 8, 9, 10, 11, 14, 15} \<and>
   parseMessageHeader_fields
       (flip_header_bit [0x50, 0x59, 0x52, 0x4F, 0, 44, 0, 4, 0, 0, 0, 0, 0, 0, 0, 2, 53, 27,
                  0, 0, 0, 0, 0, 0, 0, 0, 0, 0, 0, 0, 0, 0, 0, 0, 0, 0, 0, 0] 3 0)
     = Inl BadMagicOrVersion \<and>
   parseMessageHeader_fields
       (flip_header_bit [0x50, 0x59, 0x52, 0x4F, 0, 44, 0, 4, 0, 0, 0, 0, 0, 0, 0, 2, 53, 27,
                  0, 0, 0, 0, 0, 0, 0, 0, 0, 0, 0, 0, 0, 0, 0, 0, 0, 0, 0, 0] 7 0)
     = Inl ChecksumMismatch \<and>
   (18 :: nat) \<le> 20 \<and>
   (\<exists>h. parseMessageHeader_fields
       (flip_header_bit [0x50, 0x59, 0x52, 0x4F, 0, 44, 0, 4, 0, 0, 0, 0, 0, 0, 0, 2, 53, 27,
                  0, 0, 0, 0, 0, 0, 0, 0, 0, 0, 0, 0, 0, 0, 0, 0, 0, 0, 0, 0] 20 0) = Inr h)"
proof -
  let ?h = "[0x50, 0x59, 0x52, 0x4F, 0, 44, 0, 4, 0, 0, 0, 0, 0, 0, 0, 2, 53, 27,
            0, 0, 0, 0, 0, 0, 0, 0, 0, 0, 0, 0, 0, 0, 0, 0, 0, 0, 0, 0] :: byte list"
  have e: "createMsgHeader \<lparr>hmac_key = None, keyLen = 0\<rparr> (\<lambda>k d. []) 4
       (Some [0x68, 0x69, 0]) 0 0 = Inr ?h"
    by code_simp
  have k: "(0 :: nat) < 8" by simp
  from header_bit_flip_detected [OF e k, of 3] header_bit_flip_detected [OF e k, of 7]
    header_bit_flip_detected [OF e k, of 20] e
  show ?thesis by simp
qed

subsection \<open>C4: the size guard of parseMessageHeader\<close>

text \<open>C4. Claimed: parseMessageHeader fails with Truncated for a buffer shorter than 38 bytes
  and lets every buffer of at least 38 bytes pass the size check. The guard compares
  \<^verbatim>\<open>strlen\<close> of the buffer with 38 instead. The 38-byte header that createMsgHeader builds
  for a CONNECT message with an empty body (no secret configured, flags 0, sequence 0) holds
  a zero byte at offset 4, so its \<^verbatim>\<open>strlen\<close> is 4 and the guard rejects it with the
  size-mismatch error.\<close>

theorem parseMessageHeader_rejects_encoded_header:
  "createMsgHeader \<lparr>hmac_key = None, keyLen = 0\<rparr> (\<lambda>k d. []) 1 (Some [0]) 0 0
     = Inr [0x50, 0x59, 0x52, 0x4F, 0, 44, 0, 1, 0, 0, 0, 0, 0, 0, 0, 0, 53, 22,
            0, 0, 0, 0, 0, 0, 0, 0, 0, 0, 0, 0, 0, 0, 0, 0, 0, 0, 0, 0] \<and>
   length [0x50, 0x59, 0x52, 0x4F, 0, 44, 0, 1, 0, 0, 0, 0, 0, 0, 0, 0, 53, 22,
            0, 0, 0, 0, 0, 0, 0, 0, 0, 0, 0, 0, 0, 0, 0, 0, 0, 0, 0, 0 :: byte] = 38 \<and>
   parseMessageHeader
     (Some [0x50, 0x59, 0x52, 0x4F, 0, 44, 0, 1, 0, 0, 0, 0, 0, 0, 0, 0, 53, 22,
            0, 0, 0, 0, 0, 0, 0, 0, 0, 0, 0, 0, 0, 0, 0, 0, 0, 0, 0, 0]) = Inl Truncated"
  by code_simp

subsection \<open>C5: the HMAC flag and the digest that createMsgHeader writes\<close>

text \<open>C5, as claimed: with no secret configured, the HMAC flag of the encoded header is clear
  whatever flags the caller passes. It is not: createMsgHeader called with flags 8 and no
  secret writes flags 8, so bit 3 of the byte at offset 9 is set.\<close>

theorem createMsgHeader_keeps_hmac_flag_without_key:
  "createMsgHeader \<lparr>hmac_key = None, keyLen = 0\<rparr> (\<lambda>k d. []) 4 (Some [0x68, 0x69, 0]) 8 0
     = Inr [0x50, 0x59, 0x52, 0x4F, 0, 44, 0, 4, 0, 8, 0, 0, 0, 0, 0, 2, 53, 35,
            0, 0, 0, 0, 0, 0, 0, 0, 0, 0, 0, 0, 0, 0, 0, 0, 0, 0, 0, 0] \<and>
   bit ([0x50, 0x59, 0x52, 0x4F, 0, 44, 0, 4, 0, 8, 0, 0, 0, 0, 0, 2, 53, 35,
            0, 0, 0, 0, 0, 0, 0, 0, 0, 0, 0, 0, 0, 0, 0, 0, 0, 0, 0, 0 :: byte] ! 9) 3"
  by code_simp

text \<open>C5, amended: in every header that createMsgHeader returns, if a secret is configured,
  the HMAC flag (bit 3 of the flags at offsets 8-9) is set, the flags are the caller's with
  that bit added, and the digest at offsets 18-37 is \<open>hmac_sha1\<close> of the secret and the body;
  if no secret is configured, the flags are the caller's unchanged, so the HMAC flag is as
  the caller passed it, and the digest is 20 zero bytes.\<close>

theorem createMsgHeader_hmac_flag_and_digest:
  assumes "createMsgHeader config hmac_sha1 msgtype (Some mem) flags sequenceNr = Inr hdr"
  shows "(case hmac_key config of
            Some key \<Rightarrow>
              bit (hdr ! 9) 3 \<and> be16 hdr 8 = uint (ucast flags OR FLAGS_HMAC :: ushort) \<and>
              take 20 (drop 18 hdr)
                = take 20 (hmac_sha1 (take (keyLen config) key) (takeWhile (\<lambda>b. b \<noteq> 0) mem))
          | None \<Rightarrow>
              bit (hdr ! 9) 3 = bit flags 3 \<and> be16 hdr 8 = uint (ucast flags :: ushort) \<and>
              take 20 (drop 18 hdr) = replicate 20 0)"
proof -
  from assms obtain n where n: "strlen mem = Some n"
    and f: "createMsgHeader_fill config hmac_sha1 msgtype mem n flags sequenceNr = Inr hdr"
    by (rule createMsgHeader_Some)
  have body: "take n mem = takeWhile (\<lambda>b. b \<noteq> 0) mem"
    by (rule strlen_takeWhile [OF n, THEN conjunct1])
  note b = fill_bytes [OF f]
  have bit9: "bit (hdr ! 9) 3 = bit (word_cat (hdr ! 8) (hdr ! 9) :: ushort) 3"
    by (simp add: bit_simps)
  have low: "bit (ucast (x :: cint) :: ushort) 3 = bit x 3" for x
    by (simp add: bit_simps)
  have or8: "(ucast (flags OR 8) :: ushort) = ucast flags OR FLAGS_HMAC"
    by (rule bit_word_eqI) (auto simp add: bit_simps FLAGS_HMAC_def)
  have set8: "bit (flags OR 8) 3"
    by (simp add: bit_simps)
  show ?thesis
  proof (cases "hmac_key config")
    case None
    with b(4) b(9) bit9 low show ?thesis
      by (simp add: be16_cat)
  next
    case (Some key)
    with b(4) b(9) bit9 low [of "flags OR 8"] set8 or8 body show ?thesis
      by (simp add: be16_cat)
  qed
qed

theorem createMsgHeader_hmac_flag_and_digest_witness:
  "createMsgHeader \<lparr>hmac_key = Some [0x63, 0x79, 0x6c, 0x63, 0], keyLen = 4\<rparr>
       (\<lambda>k d. take 20 (k @ d @ [1, 2, 3, 4, 5, 6, 7, 8, 9, 10, 11, 12, 13, 14, 15, 16, 17, 18, 19, 20]))
       4 (Some [0x68, 0x69, 0]) 0 7
     = Inr [0x50, 0x59, 0x52, 0x4F, 0, 44, 0, 4, 0, 8, 0, 7, 0, 0, 0, 2, 53, 42,
            0x63, 0x79, 0x6c, 0x63, 0x68, 0x69, 1, 2, 3, 4, 5, 6, 7, 8, 9, 10, 11, 12, 13, 14] \<and>
   bit ([0x50, 0x59, 0x52, 0x4F, 0, 44, 0, 4, 0, 8, 0, 7, 0, 0, 0, 2, 53, 42,
         0x63, 0x79, 0x6c, 0x63, 0x68, 0x69, 1, 2, 3, 4, 5, 6, 7, 8, 9, 10, 11, 12, 13, 14 :: byte] ! 9) 3 \<and>
   createMsgHeader \<lparr>hmac_key = None, keyLen = 0\<rparr> (\<lambda>k d. []) 4 (Some [0x68, 0x69, 0]) 1 0
     = Inr [0x50, 0x59, 0x52, 0x4F, 0, 44, 0, 4, 0, 1, 0, 0, 0, 0, 0, 2, 53, 28,
            0, 0, 0, 0, 0, 0, 0, 0, 0, 0, 0, 0, 0, 0, 0, 0, 0, 0, 0, 0] \<and>
   \<not> bit ([0x50, 0x59, 0x52, 0x4F, 0, 44, 0, 4, 0, 1, 0, 0, 0, 0, 0, 2, 53, 28,
            0, 0, 0, 0, 0, 0, 0, 0, 0, 0, 0, 0, 0, 0, 0, 0, 0, 0, 0, 0 :: byte] ! 9) 3"
proof -
  let ?h1 = "[0x50, 0x59, 0x52, 0x4F, 0, 44, 0, 4, 0, 8, 0, 7, 0, 0, 0, 2, 53, 42,
            0x63, 0x79, 0x6c, 0x63, 0x68, 0x69, 1, 2, 3, 4, 5, 6, 7, 8, 9, 10, 11, 12, 13, 14] :: byte list"
  let ?h2 = "[0x50, 0x59, 0x52, 0x4F, 0, 44, 0, 4, 0, 1, 0, 0, 0, 0, 0, 2, 53, 28,
            0, 0, 0, 0, 0, 0, 0, 0, 0, 0, 0, 0, 0, 0, 0, 0, 0, 0, 0, 0] :: byte list"
  have e1: "createMsgHeader \<lparr>hmac_key = Some [0x63, 0x79, 0x6c, 0x63, 0], keyLen = 4\<rparr>
       (\<lambda>k d. take 20 (k @ d @ [1, 2, 3, 4, 5, 6, 7, 8, 9, 10, 11, 12, 13, 14, 15, 16, 17, 18, 19, 20]))
       4 (Some [0x68, 0x69, 0]) 0 7 = Inr ?h1"
    by code_simp
  have e2: "createMsgHeader \<lparr>hmac_key = None, keyLen = 0\<rparr> (\<lambda>k d. []) 4
       (Some [0x68, 0x69, 0]) 1 0 = Inr ?h2"
    by code_simp
  from createMsgHeader_hmac_flag_and_digest [OF e1] createMsgHeader_hmac_flag_and_digest [OF e2]
    e1 e2
  show ?thesis by simp
qed

subsection \<open>C6: the symmetry check of getMessage\<close>

text \<open>C6. Claimed: getMessage fails with AuthenticationModeMismatch when the (\<lambda>k d. take 20 (k @ d @ [1, 2, 3, 4, 5, 6, 7, 8, 9, 10, 11, 12, 13, 14, 15, 16, 17, 18, 19, 20]))AC flag of the
  received header is set and no secret is configured, or the flag is clear and a secret is
  configured, and goes on without a digest check when the flag is clear and no secret is
  configured. Lines 109-113 hold that test, but no call of getMessage reaches it. A sender
  with the secret "cylc" encodes a header with the flag set, and a receiver without a secret
  ends at the size guard of parseMessageHeader; so does a receiver with the secret for the
  header that a sender without a secret encodes; and so does a receiver without a secret
  for that same header, where the claim has parsing go on. For the decoded fields of that
  last header, lines 94-120 pass every check and end in the store through \<^verbatim>\<open>msg.data\<close>.\<close>

theorem getMessage_reports_no_mode_mismatch:
  "createMsgHeader \<lparr>hmac_key = Some [0x63, 0x79, 0x6c, 0x63, 0], keyLen = 4\<rparr>
       (\<lambda>k d. take 20 (k @ d @ [1, 2, 3, 4, 5, 6, 7, 8, 9, 10, 11, 12, 13, 14, 15, 16, 17, 18, 19, 20]))
       4 (Some [0x68, 0x69, 0]) 0 7
     = Inr [0x50, 0x59, 0x52, 0x4F, 0, 44, 0, 4, 0, 8, 0, 7, 0, 0, 0, 2, 53, 42,
            0x63, 0x79, 0x6c, 0x63, 0x68, 0x69, 1, 2, 3, 4, 5, 6, 7, 8, 9, 10, 11, 12, 13, 14] \<and>
   getMessage \<lparr>hmac_key = None, keyLen = 0\<rparr> (\<lambda>k d. []) (replicate 38 0xAA) (replicate 256 0xAA)
       ([0x50, 0x59, 0x52, 0x4F, 0, 44, 0, 4, 0, 8, 0, 7, 0, 0, 0, 2, 53, 42,
            0x63, 0x79, 0x6c, 0x63, 0x68, 0x69, 1, 2, 3, 4, 5, 6, 7, 8, 9, 10, 11, 12, 13, 14] @ [0x68, 0x69]) 0
     = Inl Truncated \<and>
   createMsgHeader \<lparr>hmac_key = None, keyLen = 0\<rparr> (\<lambda>k d. []) 4 (Some [0x68, 0x69, 0]) 0 0
     = Inr [0x50, 0x59, 0x52, 0x4F, 0, 44, 0, 4, 0, 0, 0, 0, 0, 0, 0, 2, 53, 27,
            0, 0, 0, 0, 0, 0, 0, 0, 0, 0, 0, 0, 0, 0, 0, 0, 0, 0, 0, 0] \<and>
   getMessage \<lparr>hmac_key = Some [0x63, 0x79, 0x6c, 0x63, 0], keyLen = 4\<rparr>
       (\<lambda>k d. take 20 (k @ d @ [1, 2, 3, 4, 5, 6, 7, 8, 9, 10, 11, 12, 13, 14, 15, 16, 17, 18, 19, 20]))
       (replicate 38 0xAA) (replicate 256 0xAA)
       ([0x50, 0x59, 0x52, 0x4F, 0, 44, 0, 4, 0, 0, 0, 0, 0, 0, 0, 2, 53, 27,
            0, 0, 0, 0, 0, 0, 0, 0, 0, 0, 0, 0, 0, 0, 0, 0, 0, 0, 0, 0] @ [0x68, 0x69]) 0
     = Inl Truncated \<and>
   getMessage \<lparr>hmac_key = None, keyLen = 0\<rparr> (\<lambda>k d. []) (replicate 38 0xAA) (replicate 256 0xAA)
       ([0x50, 0x59, 0x52, 0x4F, 0, 44, 0, 4, 0, 0, 0, 0, 0, 0, 0, 2, 53, 27,
            0, 0, 0, 0, 0, 0, 0, 0, 0, 0, 0, 0, 0, 0, 0, 0, 0, 0, 0, 0] @ [0x68, 0x69]) 0
     = Inl Truncated \<and>
   getMessage_body \<lparr>hmac_key = None, keyLen = 0\<rparr> (\<lambda>k d. [])
       \<lparr>header_type = 4, header_flags = 0, header_sequence = 0, header_datasize = 2,
          header_hmac = replicate 20 0\<rparr>
       0 [0x68, 0x69] (replicate 256 0xAA)
     = Inl Undefined"
  by code_simp

subsection \<open>C7: the header checksum\<close>

text \<open>C7. Claimed: the checksum at offset 16 of an encoded header is (type + protocol
  version + body length + flags + sequence + PYRO_MAGIC) mod 65536, and decoding accepts
  exactly when the same sum over the decoded fields equals it. The first half holds
  (\<open>createMsgHeader_checksum\<close>). The second does not: for the header that createMsgHeader
  returns for an INVOKE message "hi" with sequence number 7 under the secret "cylc", the
  value at offset 16 is that sum, over the arguments and over the encoded fields alike, and
  parseMessageHeader rejects the header at its size guard, before line 160.\<close>

theorem parseMessageHeader_rejects_matching_checksum:
  "createMsgHeader \<lparr>hmac_key = Some [0x63, 0x79, 0x6c, 0x63, 0], keyLen = 4\<rparr>
       (\<lambda>k d. take 20 (k @ d @ [1, 2, 3, 4, 5, 6, 7, 8, 9, 10, 11, 12, 13, 14, 15, 16, 17, 18, 19, 20]))
       4 (Some [0x68, 0x69, 0]) 0 7
     = Inr [0x50, 0x59, 0x52, 0x4F, 0, 44, 0, 4, 0, 8, 0, 7, 0, 0, 0, 2, 53, 42,
            0x63, 0x79, 0x6c, 0x63, 0x68, 0x69, 1, 2, 3, 4, 5, 6, 7, 8, 9, 10, 11, 12, 13, 14] \<and>
   be16 [0x50, 0x59, 0x52, 0x4F, 0, 44, 0, 4, 0, 8, 0, 7, 0, 0, 0, 2, 53, 42,
            0x63, 0x79, 0x6c, 0x63, 0x68, 0x69, 1, 2, 3, 4, 5, 6, 7, 8, 9, 10, 11, 12, 13, 14] 16
     = spec_checksum 4 44 2 8 7 \<and>
   spec_checksum
       (be16 [0x50, 0x59, 0x52, 0x4F, 0, 44, 0, 4, 0, 8, 0, 7, 0, 0, 0, 2, 53, 42,
            0x63, 0x79, 0x6c, 0x63, 0x68, 0x69, 1, 2, 3, 4, 5, 6, 7, 8, 9, 10, 11, 12, 13, 14] 6)
       (be16 [0x50, 0x59, 0x52, 0x4F, 0, 44, 0, 4, 0, 8, 0, 7, 0, 0, 0, 2, 53, 42,
            0x63, 0x79, 0x6c, 0x63, 0x68, 0x69, 1, 2, 3, 4, 5, 6, 7, 8, 9, 10, 11, 12, 13, 14] 4)
       (be32 [0x50, 0x59, 0x52, 0x4F, 0, 44, 0, 4, 0, 8, 0, 7, 0, 0, 0, 2, 53, 42,
            0x63, 0x79, 0x6c, 0x63, 0x68, 0x69, 1, 2, 3, 4, 5, 6, 7, 8, 9, 10, 11, 12, 13, 14] 12)
       (be16 [0x50, 0x59, 0x52, 0x4F, 0, 44, 0, 4, 0, 8, 0, 7, 0, 0, 0, 2, 53, 42,
            0x63, 0x79, 0x6c, 0x63, 0x68, 0x69, 1, 2, 3, 4, 5, 6, 7, 8, 9, 10, 11, 12, 13, 14] 8)
       (be16 [0x50, 0x59, 0x52, 0x4F, 0, 44, 0, 4, 0, 8, 0, 7, 0, 0, 0, 2, 53, 42,
            0x63, 0x79, 0x6c, 0x63, 0x68, 0x69, 1, 2, 3, 4, 5, 6, 7, 8, 9, 10, 11, 12, 13, 14] 10)
     = be16 [0x50, 0x59, 0x52, 0x4F, 0, 44, 0, 4, 0, 8, 0, 7, 0, 0, 0, 2, 53, 42,
            0x63, 0x79, 0x6c, 0x63, 0x68, 0x69, 1, 2, 3, 4, 5, 6, 7, 8, 9, 10, 11, 12, 13, 14] 16 \<and>
   parseMessageHeader
       (Some [0x50, 0x59, 0x52, 0x4F, 0, 44, 0, 4, 0, 8, 0, 7, 0, 0, 0, 2, 53, 42,
            0x63, 0x79, 0x6c, 0x63, 0x68, 0x69, 1, 2, 3, 4, 5, 6, 7, 8, 9, 10, 11, 12, 13, 14])
     = Inl Truncated"
  by code_simp

subsection \<open>C8: the declared body length is not checked\<close>




subsection \<open>C9: at most 256 bytes read, 20 bytes returned\<close>

text \<open>C9. Claimed: a call of getMessage that passes all validation reads at most 256 body
  bytes and returns a Message whose data field holds exactly 20 bytes of the received body.
  No call returns a Message. For the header that createMsgHeader returns for a 22-byte body
  with no secret configured, followed by that body, getMessage ends at the size guard of
  parseMessageHeader. For the decoded fields of that header, lines 94-120 read the 22
  bytes, pass every check and end at line 118: \<^verbatim>\<open>memcpy(msg.data, data, hmac_size)\<close> stores
  through the pointer \<^verbatim>\<open>msg.data\<close>, which nothing has assigned.\<close>

theorem getMessage_copies_through_unassigned_pointer:
  "createMsgHeader \<lparr>hmac_key = None, keyLen = 0\<rparr> (\<lambda>k d. []) 5
       (Some ([1, 2, 3, 4, 5, 6, 7, 8, 9, 10, 11, 12, 13, 14, 15, 16, 17, 18, 19, 20, 21, 22] @ [0])) 0 0
     = Inr [0x50, 0x59, 0x52, 0x4F, 0, 44, 0, 5, 0, 0, 0, 0, 0, 0, 0, 22, 53, 48,
            0, 0, 0, 0, 0, 0, 0, 0, 0, 0, 0, 0, 0, 0, 0, 0, 0, 0, 0, 0] \<and>
   getMessage \<lparr>hmac_key = None, keyLen = 0\<rparr> (\<lambda>k d. []) (replicate 38 0xAA) (replicate 256 0xAA)
       ([0x50, 0x59, 0x52, 0x4F, 0, 44, 0, 5, 0, 0, 0, 0, 0, 0, 0, 22, 53, 48,
            0, 0, 0, 0, 0, 0, 0, 0, 0, 0, 0, 0, 0, 0, 0, 0, 0, 0, 0, 0]
        @ [1, 2, 3, 4, 5, 6, 7, 8, 9, 10, 11, 12, 13, 14, 15, 16, 17, 18, 19, 20, 21, 22]) 0
     = Inl Truncated \<and>
   read ([1, 2, 3, 4, 5, 6, 7, 8, 9, 10, 11, 12, 13, 14, 15, 16, 17, 18, 19, 20, 21, 22] :: byte list) 256
     = ([1, 2, 3, 4, 5, 6, 7, 8, 9, 10, 11, 12, 13, 14, 15, 16, 17, 18, 19, 20, 21, 22], []) \<and>
   getMessage_body \<lparr>hmac_key = None, keyLen = 0\<rparr> (\<lambda>k d. [])
       \<lparr>header_type = 5, header_flags = 0, header_sequence = 0, header_datasize = 22,
          header_hmac = replicate 20 0\<rparr>
       0 [1, 2, 3, 4, 5, 6, 7, 8, 9, 10, 11, 12, 13, 14, 15, 16, 17, 18, 19, 20, 21, 22]
       (replicate 256 0xAA)
     = Inl Undefined"
  by code_simp

subsection \<open>C10: strlen before the null guard in createMsgHeader\<close>

text \<open>C10. createMsgHeader calls \<^verbatim>\<open>strlen(data)\<close> before it tests \<^verbatim>\<open>data == NULL\<close>: for a null
  \<open>data\<close> the call is undefined already at \<^verbatim>\<open>strlen\<close>. For every non-null \<open>data\<close> the guard
  does nothing: it hands on the same object, and the result is that of lines 40-79 run with
  the length \<^verbatim>\<open>strlen\<close> returned, so the guard's branch has no part in the body length,
  the flags or the digest.\<close>

theorem createMsgHeader_null_guard_dead:
  "c_strlen None = Inl Undefined \<and>
   createMsgHeader config hmac_sha1 msgtype None flags sequenceNr = Inl Undefined \<and>
   (\<forall>mem. null_guard (Some mem) = Inr mem \<and>
      createMsgHeader config hmac_sha1 msgtype (Some mem) flags sequenceNr =
        (case strlen mem of
           None \<Rightarrow> Inl Undefined
         | Some dataLen \<Rightarrow>
             createMsgHeader_fill config hmac_sha1 msgtype mem dataLen flags sequenceNr))"
  by (simp add: createMsgHeader_def c_strlen_def null_guard_def split: option.splits)

theorem createMsgHeader_null_guard_dead_witness:
  "c_strlen None = Inl Undefined \<and>
   createMsgHeader \<lparr>hmac_key = None, keyLen = 0\<rparr> (\<lambda>k d. []) 1 None 0 0 = Inl Undefined \<and>
   null_guard (Some [0x68, 0x69, 0]) = Inr [0x68, 0x69, 0] \<and>
   createMsgHeader \<lparr>hmac_key = None, keyLen = 0\<rparr> (\<lambda>k d. []) 4 (Some [0x68, 0x69, 0]) 8 0
     = createMsgHeader_fill \<lparr>hmac_key = None, keyLen = 0\<rparr> (\<lambda>k d. []) 4 [0x68, 0x69, 0]
         (length [0x68, 0x69 :: byte]) 8 0"
  using createMsgHeader_null_guard_dead
          [of "\<lparr>hmac_key = None, keyLen = 0\<rparr>" "\<lambda>k d. []" 1 0 0]
        createMsgHeader_null_guard_dead
          [of "\<lparr>hmac_key = None, keyLen = 0\<rparr>" "\<lambda>k d. []" 4 8 0, THEN conjunct2, THEN conjunct2,
           THEN spec, of "[0x68, 0x69, 0]"]
  by simp

end
